theory Spec2Isabelle
  imports Main "HOL-Library.Word"
begin

unbundle bit_operations_syntax

section \<open>Data model of \<open>engine/config.go\<close>\<close>

text \<open>
  Go's \<open>int\<close> is 32 or 64 bits wide, by the build target (32 on 386 and arm, 64 on
  amd64 and arm64). An \<open>int\<close> value is carried as the integer it denotes; where the
  code converts to \<open>int\<close> or computes in \<open>int\<close>, the result is reduced to the target's
  width by \<open>wrap_int\<close>. \<open>uint8\<close> is \<open>8 word\<close>, \<open>datasize.ByteSize\<close> is \<open>uint64\<close>. A
  \<open>float32\<close> is carried as its IEEE-754 bit pattern, since the code only ever compares
  it. Strings are byte strings.
\<close>

type_synonym go_int = int

datatype int_size = Bits32 | Bits64

fun int_bits :: "int_size \<Rightarrow> nat" where
  "int_bits Bits32 = 32"
| "int_bits Bits64 = 64"

text \<open>Two's complement wrap-around of a result at the width of \<open>int\<close>.\<close>

definition wrap_int :: "int_size \<Rightarrow> int \<Rightarrow> go_int" where
  "wrap_int sz x = signed_take_bit (int_bits sz - 1) x"

type_synonym uint8 = "8 word"
type_synonym uint64 = "64 word"
type_synonym float32 = "32 word"

record Config =
  AutoStart :: bool
  EngineDebug :: bool
  MuteEngineLog :: bool
  ObfsPreferred :: bool
  ObfsRequirePreferred :: bool
  DisableTrackers :: bool
  DisableIPv6 :: bool
  DownloadDirectory :: string
  WatchDirectory :: string
  EnableUpload :: bool
  EnableSeeding :: bool
  IncomingPort :: go_int
  DoneCmd :: string
  SeedRatio :: float32
  UploadRate :: string
  DownloadRate :: string
  TrackerListURL :: string
  AlwaysAddTrackers :: bool
  ProxyURL :: string
  RssURL :: string

text \<open>The action bits: \<open>const ( ForbidRuntimeChange uint8 = 1 << iota; ... )\<close>.\<close>

definition ForbidRuntimeChange :: uint8 where
  "ForbidRuntimeChange = push_bit 0 1"

definition NeedEngineReConfig :: uint8 where
  "NeedEngineReConfig = push_bit 1 1"

definition NeedRestartWatch :: uint8 where
  "NeedRestartWatch = push_bit 2 1"

definition NeedUpdateTracker :: uint8 where
  "NeedUpdateTracker = push_bit 3 1"

subsection \<open>The reflective view of a \<open>Config\<close>\<close>

text \<open>
  \<open>reflect.Value.Interface()\<close> yields the field's value boxed with its dynamic type.
\<close>

datatype fieldval =
    BoolV bool
  | StringV string
  | IntV go_int
  | Float32V float32

text \<open>
  Go's \<open>==\<close> on \<open>float32\<close> is the IEEE-754 comparison: a NaN equals nothing (itself
  included), and the two zeros are equal.
\<close>

definition float32_isNaN :: "float32 \<Rightarrow> bool" where
  "float32_isNaN w = (w AND 0x7F800000 = 0x7F800000 \<and> w AND 0x007FFFFF \<noteq> 0)"

definition float32_eq :: "float32 \<Rightarrow> float32 \<Rightarrow> bool" where
  "float32_eq a b =
     (\<not> float32_isNaN a \<and> \<not> float32_isNaN b \<and>
      (a = b \<or> (a AND 0x7FFFFFFF = 0 \<and> b AND 0x7FFFFFFF = 0)))"

text \<open>
  \<open>x.Interface() != y.Interface()\<close>: interface values differ when their dynamic types
  differ or their values do.
\<close>

fun iface_neq :: "fieldval \<Rightarrow> fieldval \<Rightarrow> bool" where
  "iface_neq (Float32V a) (Float32V b) = (\<not> float32_eq a b)"
| "iface_neq x y = (x \<noteq> y)"

text \<open>The struct's fields in declaration order, as \<open>reflect\<close> enumerates them.\<close>

definition structFields :: "Config \<Rightarrow> (string \<times> fieldval) list" where
  "structFields c =
     [(''AutoStart'', BoolV (AutoStart c)),
      (''EngineDebug'', BoolV (EngineDebug c)),
      (''MuteEngineLog'', BoolV (MuteEngineLog c)),
      (''ObfsPreferred'', BoolV (ObfsPreferred c)),
      (''ObfsRequirePreferred'', BoolV (ObfsRequirePreferred c)),
      (''DisableTrackers'', BoolV (DisableTrackers c)),
      (''DisableIPv6'', BoolV (DisableIPv6 c)),
      (''DownloadDirectory'', StringV (DownloadDirectory c)),
      (''WatchDirectory'', StringV (WatchDirectory c)),
      (''EnableUpload'', BoolV (EnableUpload c)),
      (''EnableSeeding'', BoolV (EnableSeeding c)),
      (''IncomingPort'', IntV (IncomingPort c)),
      (''DoneCmd'', StringV (DoneCmd c)),
      (''SeedRatio'', Float32V (SeedRatio c)),
      (''UploadRate'', StringV (UploadRate c)),
      (''DownloadRate'', StringV (DownloadRate c)),
      (''TrackerListURL'', StringV (TrackerListURL c)),
      (''AlwaysAddTrackers'', BoolV (AlwaysAddTrackers c)),
      (''ProxyURL'', StringV (ProxyURL c)),
      (''RssURL'', StringV (RssURL c))]"

text \<open>
  \<open>reflect.Indirect(v).FieldByName(name).Interface()\<close>; a name that is not a field gives
  the zero \<open>Value\<close>, whose \<open>Interface()\<close> panics: \<open>None\<close>.
\<close>

definition FieldByName :: "Config \<Rightarrow> string \<Rightarrow> fieldval option" where
  "FieldByName c name = map_of (structFields c) name"

section \<open>\<open>Validate\<close>\<close>

text \<open>The list the loop of \<open>Validate\<close> ranges over.\<close>

definition engineFields :: "string list" where
  "engineFields =
     [''IncomingPort'', ''DownloadDirectory'',
      ''EngineDebug'', ''EnableUpload'', ''EnableSeeding'', ''UploadRate'',
      ''DownloadRate'', ''ObfsPreferred'', ''ObfsRequirePreferred'',
      ''DisableTrackers'', ''DisableIPv6'', ''ProxyURL'']"

text \<open>
  The \<open>for _, field := range ... { ...; break }\<close> loop, leaving at the first field
  that differs. \<open>None\<close> is the panic of \<open>Interface()\<close> on a missing field.
\<close>

fun validateLoop :: "Config \<Rightarrow> Config \<Rightarrow> string list \<Rightarrow> uint8 \<Rightarrow> uint8 option" where
  "validateLoop c nc [] status = Some status"
| "validateLoop c nc (field # rest) status =
     (case FieldByName c field of
        None \<Rightarrow> None
      | Some cval \<Rightarrow>
          (case FieldByName nc field of
             None \<Rightarrow> None
           | Some ncval \<Rightarrow>
               if iface_neq cval ncval then Some (status OR NeedEngineReConfig)
               else validateLoop c nc rest status))"

definition Validate :: "Config \<Rightarrow> Config \<Rightarrow> uint8 option" where
  "Validate c nc =
     (let status = 0;
          status = (if DoneCmd c \<noteq> DoneCmd nc then status OR ForbidRuntimeChange else status);
          status = (if WatchDirectory c \<noteq> WatchDirectory nc then status OR NeedRestartWatch else status);
          status = (if TrackerListURL c \<noteq> TrackerListURL nc then status OR NeedUpdateTracker else status)
      in validateLoop c nc engineFields status)"

text \<open>
  The hot-reconfigurable group as the specification words it: a logical OR over the
  fields of its list (incoming port, download directory, engine debug flag, upload and
  seed enablement, upload rate, download rate, obfuscation preference and requirement,
  tracker disablement, IPv6 disablement, proxy URL), with no early exit.
\<close>

definition hotReconfigurableDiffers :: "Config \<Rightarrow> Config \<Rightarrow> bool" where
  "hotReconfigurableDiffers old new =
     (IncomingPort old \<noteq> IncomingPort new \<or>
      DownloadDirectory old \<noteq> DownloadDirectory new \<or>
      EngineDebug old \<noteq> EngineDebug new \<or>
      EnableUpload old \<noteq> EnableUpload new \<or>
      EnableSeeding old \<noteq> EnableSeeding new \<or>
      UploadRate old \<noteq> UploadRate new \<or>
      DownloadRate old \<noteq> DownloadRate new \<or>
      ObfsPreferred old \<noteq> ObfsPreferred new \<or>
      ObfsRequirePreferred old \<noteq> ObfsRequirePreferred new \<or>
      DisableTrackers old \<noteq> DisableTrackers new \<or>
      DisableIPv6 old \<noteq> DisableIPv6 new \<or>
      ProxyURL old \<noteq> ProxyURL new)"

section \<open>Errors, logging and the libraries the file calls\<close>

datatype error =
    LibraryError string
  | ExceedIntVal
  | InvalidPath string error

text \<open>
  \<open>LibraryError\<close> is an error value handed back by a library call, by its message;
  \<open>ExceedIntVal\<close> is \<open>errors.New("excceed int val")\<close>; \<open>InvalidPath p err\<close> is
  \<open>fmt.Errorf("Invalid path %s, %w", p, err)\<close>.
\<close>

text \<open>A call of the \<open>log\<close> package, with its operands.\<close>

datatype log_call =
    Printf string "fieldval list"
  | Println "fieldval list"

text \<open>
  The functions of other packages that this file calls and whose code is outside the
  repository are parameters: the Unicode paths of \<open>strings.TrimSpace\<close> and
  \<open>strings.ToLower\<close> (taken on a string holding a byte \<open>\<ge> utf8.RuneSelf\<close>),
  \<open>datasize.ByteSize.UnmarshalText\<close>, and \<open>filepath.Abs\<close> in the process's current
  working directory. With them goes the width of \<open>int\<close> on the build target
  (\<open>strconv.IntSize\<close>).
\<close>

record golib =
  IntSize :: int_size
  unicodeTrimSpace :: "string \<Rightarrow> string"
  unicodeToLower :: "string \<Rightarrow> string"
  UnmarshalText :: "string \<Rightarrow> error + uint64"
  filepath_Abs :: "string \<Rightarrow> error + string"

definition isASCII :: "char \<Rightarrow> bool" where
  "isASCII c = ((of_char c :: nat) < 128)"

text \<open>The ASCII white space of \<open>unicode.IsSpace\<close>: \<open>\t \n \v \f \r\<close> and the space.\<close>

definition asciiSpace :: "char \<Rightarrow> bool" where
  "asciiSpace c = ((of_char c :: nat) \<in> {9, 10, 11, 12, 13, 32})"

definition TrimSpace :: "golib \<Rightarrow> string \<Rightarrow> string" where
  "TrimSpace L s =
     (if list_all isASCII s
      then rev (dropWhile asciiSpace (rev (dropWhile asciiSpace s)))
      else unicodeTrimSpace L s)"

definition lowerASCII :: "char \<Rightarrow> char" where
  "lowerASCII c =
     (if (65::nat) \<le> of_char c \<and> (of_char c :: nat) \<le> 90
      then char_of (of_char c + (32::nat)) else c)"

definition ToLower :: "golib \<Rightarrow> string \<Rightarrow> string" where
  "ToLower L s = (if list_all isASCII s then map lowerASCII s else unicodeToLower L s)"

section \<open>\<open>rateLimiter\<close> and the two limiter accessors\<close>

text \<open>
  \<open>rate.Limit\<close> is a \<open>float64\<close>: \<open>rate.Inf\<close>, or the conversion of an \<open>int\<close>, which
  is exact for every value the code converts (below \<open>2^53\<close>), so the finite limit
  carries that integer. The burst is an \<open>int\<close>: the product \<open>rateSize*3\<close> as the
  target's \<open>int\<close> holds it.
\<close>

datatype Limit = rate_Inf | rate_Limit int

record Limiter =
  limit :: Limit
  burst :: go_int

definition NewLimiter :: "Limit \<Rightarrow> go_int \<Rightarrow> Limiter" where
  "NewLimiter r b = \<lparr>limit = r, burst = b\<rparr>"

definition rateLimiter :: "golib \<Rightarrow> string \<Rightarrow> error + Limiter" where
  "rateLimiter L rstr0 =
     (let rstr = ToLower L (TrimSpace L rstr0);
          final = (\<lambda>rateSize :: go_int.
                     Inr (NewLimiter (rate_Limit rateSize)
                            (wrap_int (IntSize L) (rateSize * 3))))
      in if rstr = ''low'' then final 50000
         else if rstr = ''medium'' then final 500000
         else if rstr = ''high'' then final 1500000
         else if rstr = ''unlimited'' \<or> rstr = ''0'' \<or> rstr = [] then
           Inr (NewLimiter rate_Inf 0)
         else
           (case UnmarshalText L rstr of
              Inl err \<Rightarrow> Inl err
            | Inr v \<Rightarrow>
                if 2147483647 < v then Inl ExceedIntVal
                else final (wrap_int (IntSize L) (uint v))))"

text \<open>
  The accessors have a pointer receiver: they return the receiver as they leave it, the
  calls of \<open>log\<close> they made, and the limiter. The warning is printed after the field is
  reset.
\<close>

definition UploadLimiter :: "golib \<Rightarrow> Config \<Rightarrow> Config \<times> log_call list \<times> Limiter" where
  "UploadLimiter L c =
     (case rateLimiter L (UploadRate c) of
        Inl err \<Rightarrow>
          (let c = c\<lparr>UploadRate := []\<rparr>;
               lg = Printf ''RateLimit [%s] unreconized, set as unlimited'' [StringV (UploadRate c)]
           in (c, [lg], NewLimiter rate_Inf 0))
      | Inr l \<Rightarrow> (c, [], l))"

definition DownloadLimiter :: "golib \<Rightarrow> Config \<Rightarrow> Config \<times> log_call list \<times> Limiter" where
  "DownloadLimiter L c =
     (case rateLimiter L (DownloadRate c) of
        Inl err \<Rightarrow>
          (let c = c\<lparr>DownloadRate := []\<rparr>;
               lg = Printf ''RateLimit [%s] unreconized, set as unlimited'' [StringV (DownloadRate c)]
           in (c, [lg], NewLimiter rate_Inf 0))
      | Inr l \<Rightarrow> (c, [], l))"

section \<open>\<open>NormlizeConfigDir\<close>\<close>

text \<open>
  The receiver is rewritten in place, so the result holds the receiver as the call leaves
  it together with the returned pair \<open>(bool, error)\<close>. Both error returns print
  \<open>c.WatchDirectory\<close>.
\<close>

definition NormlizeConfigDir :: "golib \<Rightarrow> Config \<Rightarrow> Config \<times> bool \<times> error option" where
  "NormlizeConfigDir L c =
     (let changed = False;
          dl = (if DownloadDirectory c \<noteq> [] then
                  (case filepath_Abs L (DownloadDirectory c) of
                     Inl err \<Rightarrow> Inl (InvalidPath (WatchDirectory c) err)
                   | Inr dldir \<Rightarrow>
                       if DownloadDirectory c \<noteq> dldir
                       then Inr (c\<lparr>DownloadDirectory := dldir\<rparr>, True)
                       else Inr (c, changed))
                else Inr (c, changed))
      in case dl of
           Inl e \<Rightarrow> (c, False, Some e)
         | Inr (c, changed) \<Rightarrow>
             if WatchDirectory c \<noteq> [] then
               (case filepath_Abs L (WatchDirectory c) of
                  Inl err \<Rightarrow> (c, False, Some (InvalidPath (WatchDirectory c) err))
                | Inr wdir \<Rightarrow>
                    if WatchDirectory c \<noteq> wdir
                    then (c\<lparr>WatchDirectory := wdir\<rparr>, True, None)
                    else (c, changed, None))
             else (c, changed, None))"

section \<open>\<open>SyncViper\<close>\<close>

text \<open>
  The calls made on the \<open>viper\<close> store are recorded in order. What the store answers
  is a parameter: the path \<open>viper.ConfigFileUsed()\<close> returns, and the result of
  \<open>viper.WriteConfigAs\<close> after the calls made so far.
\<close>

datatype viper_call =
    viper_Set string fieldval
  | viper_WriteConfigAs string

record viper =
  ConfigFileUsed :: string
  WriteConfigAs :: "viper_call list \<Rightarrow> string \<Rightarrow> error option"

definition NumField :: "Config \<Rightarrow> nat" where
  "NumField c = length (structFields c)"

definition Value_Field :: "Config \<Rightarrow> nat \<Rightarrow> fieldval" where
  "Value_Field c i = snd (structFields c ! i)"

definition Field_Name :: "Config \<Rightarrow> nat \<Rightarrow> string" where
  "Field_Name c i = fst (structFields c ! i)"

text \<open>The loop \<open>for i := 0; i < typeOfC.NumField(); i++\<close>; \<open>i\<close> stays in range.\<close>

function syncLoop ::
  "Config \<Rightarrow> Config \<Rightarrow> nat \<Rightarrow> viper_call list \<times> log_call list \<Rightarrow> viper_call list \<times> log_call list"
where
  "syncLoop c nc i (calls, logs) =
     (if i < NumField c then
        (if iface_neq (Value_Field c i) (Value_Field nc i) then
           (let name = Field_Name c i;
                oval = Value_Field c i;
                val = Value_Field nc i
            in syncLoop c nc (i + 1)
                 (calls @ [viper_Set name val],
                  logs @ [Println [StringV ''config updated '', StringV name, StringV '': '',
                                   oval, StringV '' -> '', val]]))
         else syncLoop c nc (i + 1) (calls, logs))
      else (calls, logs))"
  by pat_completeness auto
termination
  by (relation "measure (\<lambda>(c, nc, i, st). NumField c - i)") auto

text \<open>
  The result: the receiver (never assigned to), the calls on the store, the log, and the
  error of the write.
\<close>

definition SyncViper ::
  "viper \<Rightarrow> Config \<Rightarrow> Config \<Rightarrow> Config \<times> viper_call list \<times> log_call list \<times> error option"
where
  "SyncViper V c nc =
     (let (calls, logs) = syncLoop c nc 0 ([], []);
          path = ConfigFileUsed V
      in (c, calls @ [viper_WriteConfigAs path], logs, WriteConfigAs V calls path))"

section \<open>Two configurations of the repository\<close>

text \<open>The zero value \<open>Config{}\<close>.\<close>

definition zeroConfig :: Config where
  "zeroConfig =
     \<lparr>AutoStart = False, EngineDebug = False, MuteEngineLog = False, ObfsPreferred = False,
      ObfsRequirePreferred = False, DisableTrackers = False, DisableIPv6 = False,
      DownloadDirectory = [], WatchDirectory = [], EnableUpload = False,
      EnableSeeding = False, IncomingPort = 0, DoneCmd = [], SeedRatio = 0,
      UploadRate = [], DownloadRate = [], TrackerListURL = [],
      AlwaysAddTrackers = False, ProxyURL = [], RssURL = []\<rparr>"

text \<open>
  The defaults that \<open>viperConf\<close> of the server sets, over the zero value, for a
  server started with an empty \<open>ProxyURL\<close> option.
\<close>

definition defaultConfig :: Config where
  "defaultConfig =
     zeroConfig\<lparr>DownloadDirectory := ''./downloads'', WatchDirectory := ''./torrents'',
       EnableUpload := True, AutoStart := True, DoneCmd := [], SeedRatio := 0,
       ObfsPreferred := True, ObfsRequirePreferred := False, IncomingPort := 50007,
       TrackerListURL := ''https://raw.githubusercontent.com/ngosang/trackerslist/master/trackers_best.txt''\<rparr>"

section \<open>Properties of \<open>Validate\<close>\<close>

text \<open>
  The loop returns the status with \<open>NeedEngineReConfig\<close> added exactly when some name of
  its list has differing values, whatever the list, provided every name is a field.
\<close>

lemma validateLoop_any:
  assumes "\<forall>f\<in>set names. FieldByName c f \<noteq> None \<and> FieldByName nc f \<noteq> None"
  shows "validateLoop c nc names st =
    Some (if \<exists>f\<in>set names. iface_neq (the (FieldByName c f)) (the (FieldByName nc f))
          then st OR NeedEngineReConfig else st)"
  using assms
proof (induction names)
  case Nil
  then show ?case by simp
next
  case (Cons f fs)
  then obtain x y where xy: "FieldByName c f = Some x" "FieldByName nc f = Some y"
    by auto
  show ?case
  proof (cases "iface_neq x y")
    case True
    then show ?thesis using xy by simp
  next
    case False
    then show ?thesis using xy Cons by simp
  qed
qed

lemma FieldByName_engine:
  "FieldByName c ''IncomingPort'' = Some (IntV (IncomingPort c))"
  "FieldByName c ''DownloadDirectory'' = Some (StringV (DownloadDirectory c))"
  "FieldByName c ''EngineDebug'' = Some (BoolV (EngineDebug c))"
  "FieldByName c ''EnableUpload'' = Some (BoolV (EnableUpload c))"
  "FieldByName c ''EnableSeeding'' = Some (BoolV (EnableSeeding c))"
  "FieldByName c ''UploadRate'' = Some (StringV (UploadRate c))"
  "FieldByName c ''DownloadRate'' = Some (StringV (DownloadRate c))"
  "FieldByName c ''ObfsPreferred'' = Some (BoolV (ObfsPreferred c))"
  "FieldByName c ''ObfsRequirePreferred'' = Some (BoolV (ObfsRequirePreferred c))"
  "FieldByName c ''DisableTrackers'' = Some (BoolV (DisableTrackers c))"
  "FieldByName c ''DisableIPv6'' = Some (BoolV (DisableIPv6 c))"
  "FieldByName c ''ProxyURL'' = Some (StringV (ProxyURL c))"
  by (simp_all add: FieldByName_def structFields_def)

lemma validateLoop_engineFields:
  "validateLoop c nc engineFields st =
    Some (if IncomingPort c \<noteq> IncomingPort nc \<or> DownloadDirectory c \<noteq> DownloadDirectory nc \<or>
             EngineDebug c \<noteq> EngineDebug nc \<or> EnableUpload c \<noteq> EnableUpload nc \<or>
             EnableSeeding c \<noteq> EnableSeeding nc \<or> UploadRate c \<noteq> UploadRate nc \<or>
             DownloadRate c \<noteq> DownloadRate nc \<or> ObfsPreferred c \<noteq> ObfsPreferred nc \<or>
             ObfsRequirePreferred c \<noteq> ObfsRequirePreferred nc \<or>
             DisableTrackers c \<noteq> DisableTrackers nc \<or> DisableIPv6 c \<noteq> DisableIPv6 nc \<or>
             ProxyURL c \<noteq> ProxyURL nc
          then st OR NeedEngineReConfig else st)"
proof -
  have "\<forall>f\<in>set engineFields. FieldByName c f \<noteq> None \<and> FieldByName nc f \<noteq> None"
    by (simp add: engineFields_def FieldByName_engine)
  from validateLoop_any [OF this, of st] show ?thesis
    by (simp add: engineFields_def FieldByName_engine)
qed

lemma action_bits:
  fixes a b c d :: bool
  defines "st \<equiv> (if a then ForbidRuntimeChange else 0) OR (if c then NeedRestartWatch else 0) OR
                 (if d then NeedUpdateTracker else 0) OR (if b then NeedEngineReConfig else 0)"
  shows "(st AND ForbidRuntimeChange \<noteq> 0) = a"
    and "(st AND NeedEngineReConfig \<noteq> 0) = b"
    and "(st AND NeedRestartWatch \<noteq> 0) = c"
    and "(st AND NeedUpdateTracker \<noteq> 0) = d"
    and "st AND NOT (ForbidRuntimeChange OR NeedEngineReConfig OR NeedRestartWatch OR NeedUpdateTracker) = 0"
  unfolding st_def ForbidRuntimeChange_def NeedEngineReConfig_def NeedRestartWatch_def
    NeedUpdateTracker_def
  by (cases a; cases b; cases c; cases d; simp)+

lemma Validate_formula:
  "Validate c nc = Some (
      (if DoneCmd c \<noteq> DoneCmd nc then ForbidRuntimeChange else 0) OR
      (if WatchDirectory c \<noteq> WatchDirectory nc then NeedRestartWatch else 0) OR
      (if TrackerListURL c \<noteq> TrackerListURL nc then NeedUpdateTracker else 0) OR
      (if IncomingPort c \<noteq> IncomingPort nc \<or> DownloadDirectory c \<noteq> DownloadDirectory nc \<or>
             EngineDebug c \<noteq> EngineDebug nc \<or> EnableUpload c \<noteq> EnableUpload nc \<or>
             EnableSeeding c \<noteq> EnableSeeding nc \<or> UploadRate c \<noteq> UploadRate nc \<or>
             DownloadRate c \<noteq> DownloadRate nc \<or> ObfsPreferred c \<noteq> ObfsPreferred nc \<or>
             ObfsRequirePreferred c \<noteq> ObfsRequirePreferred nc \<or>
             DisableTrackers c \<noteq> DisableTrackers nc \<or> DisableIPv6 c \<noteq> DisableIPv6 nc \<or>
             ProxyURL c \<noteq> ProxyURL nc
       then NeedEngineReConfig else 0))"
  unfolding Validate_def Let_def validateLoop_engineFields
  by (simp add: ac_simps)


text \<open>
  Claim C1. For every pair of configurations, \<open>Validate\<close> returns (it never panics) the
  union of the per-group action bits: \<open>ForbidRuntimeChange\<close> is set iff \<open>DoneCmd\<close>
  differs, \<open>NeedRestartWatch\<close> iff \<open>WatchDirectory\<close> differs, \<open>NeedUpdateTracker\<close> iff
  \<open>TrackerListURL\<close> differs, \<open>NeedEngineReConfig\<close> iff one of the twelve fields of the
  loop's list differs, and no other bit is set. Comparing a configuration with itself
  gives the empty status, and the fields outside every group (\<open>AutoStart\<close>,
  \<open>MuteEngineLog\<close>, \<open>SeedRatio\<close>, \<open>AlwaysAddTrackers\<close>, \<open>RssURL\<close>) can be changed at
  will on either side without changing the result.
\<close>

theorem Validate_union_of_group_bits:
  "\<exists>status.
     Validate c nc = Some status \<and>
     status =
       (if DoneCmd c \<noteq> DoneCmd nc then ForbidRuntimeChange else 0) OR
       (if WatchDirectory c \<noteq> WatchDirectory nc then NeedRestartWatch else 0) OR
       (if TrackerListURL c \<noteq> TrackerListURL nc then NeedUpdateTracker else 0) OR
       (if IncomingPort c \<noteq> IncomingPort nc \<or> DownloadDirectory c \<noteq> DownloadDirectory nc \<or>
           EngineDebug c \<noteq> EngineDebug nc \<or> EnableUpload c \<noteq> EnableUpload nc \<or>
           EnableSeeding c \<noteq> EnableSeeding nc \<or> UploadRate c \<noteq> UploadRate nc \<or>
           DownloadRate c \<noteq> DownloadRate nc \<or> ObfsPreferred c \<noteq> ObfsPreferred nc \<or>
           ObfsRequirePreferred c \<noteq> ObfsRequirePreferred nc \<or>
           DisableTrackers c \<noteq> DisableTrackers nc \<or> DisableIPv6 c \<noteq> DisableIPv6 nc \<or>
           ProxyURL c \<noteq> ProxyURL nc
        then NeedEngineReConfig else 0) \<and>
     (status AND ForbidRuntimeChange \<noteq> 0) = (DoneCmd c \<noteq> DoneCmd nc) \<and>
     (status AND NeedRestartWatch \<noteq> 0) = (WatchDirectory c \<noteq> WatchDirectory nc) \<and>
     (status AND NeedUpdateTracker \<noteq> 0) = (TrackerListURL c \<noteq> TrackerListURL nc) \<and>
     (status AND NeedEngineReConfig \<noteq> 0) =
       (IncomingPort c \<noteq> IncomingPort nc \<or> DownloadDirectory c \<noteq> DownloadDirectory nc \<or>
        EngineDebug c \<noteq> EngineDebug nc \<or> EnableUpload c \<noteq> EnableUpload nc \<or>
        EnableSeeding c \<noteq> EnableSeeding nc \<or> UploadRate c \<noteq> UploadRate nc \<or>
        DownloadRate c \<noteq> DownloadRate nc \<or> ObfsPreferred c \<noteq> ObfsPreferred nc \<or>
        ObfsRequirePreferred c \<noteq> ObfsRequirePreferred nc \<or>
        DisableTrackers c \<noteq> DisableTrackers nc \<or> DisableIPv6 c \<noteq> DisableIPv6 nc \<or>
        ProxyURL c \<noteq> ProxyURL nc) \<and>
     status AND NOT (ForbidRuntimeChange OR NeedEngineReConfig OR NeedRestartWatch OR
                     NeedUpdateTracker) = 0 \<and>
     Validate c c = Some 0 \<and>
     Validate
       (c\<lparr>AutoStart := a1, MuteEngineLog := m1, SeedRatio := r1, AlwaysAddTrackers := t1,
          RssURL := u1\<rparr>)
       (nc\<lparr>AutoStart := a2, MuteEngineLog := m2, SeedRatio := r2, AlwaysAddTrackers := t2,
           RssURL := u2\<rparr>) = Some status"
proof -
  let ?hot = "IncomingPort c \<noteq> IncomingPort nc \<or> DownloadDirectory c \<noteq> DownloadDirectory nc \<or>
        EngineDebug c \<noteq> EngineDebug nc \<or> EnableUpload c \<noteq> EnableUpload nc \<or>
        EnableSeeding c \<noteq> EnableSeeding nc \<or> UploadRate c \<noteq> UploadRate nc \<or>
        DownloadRate c \<noteq> DownloadRate nc \<or> ObfsPreferred c \<noteq> ObfsPreferred nc \<or>
        ObfsRequirePreferred c \<noteq> ObfsRequirePreferred nc \<or>
        DisableTrackers c \<noteq> DisableTrackers nc \<or> DisableIPv6 c \<noteq> DisableIPv6 nc \<or>
        ProxyURL c \<noteq> ProxyURL nc"
  let ?st = "(if DoneCmd c \<noteq> DoneCmd nc then ForbidRuntimeChange else 0) OR
       (if WatchDirectory c \<noteq> WatchDirectory nc then NeedRestartWatch else 0) OR
       (if TrackerListURL c \<noteq> TrackerListURL nc then NeedUpdateTracker else 0) OR
       (if ?hot then NeedEngineReConfig else 0)"
  have v: "Validate c nc = Some ?st"
    by (rule Validate_formula)
  have same: "Validate c c = Some 0"
    by (simp add: Validate_formula)
  have cosmetic: "Validate
       (c\<lparr>AutoStart := a1, MuteEngineLog := m1, SeedRatio := r1, AlwaysAddTrackers := t1,
          RssURL := u1\<rparr>)
       (nc\<lparr>AutoStart := a2, MuteEngineLog := m2, SeedRatio := r2, AlwaysAddTrackers := t2,
           RssURL := u2\<rparr>) = Some ?st"
    by (simp add: Validate_formula)
  note bits = action_bits [of "DoneCmd c \<noteq> DoneCmd nc" "WatchDirectory c \<noteq> WatchDirectory nc"
      "TrackerListURL c \<noteq> TrackerListURL nc" ?hot]
  show ?thesis
    apply (rule exI [of _ ?st])
    apply (intro conjI)
            apply (rule v)
           apply (rule refl)
          apply (rule bits(1))
         apply (rule bits(3))
        apply (rule bits(4))
       apply (rule bits(2))
      apply (rule bits(5))
     apply (rule same)
    apply (rule cosmetic)
    done
qed

theorem Validate_union_of_group_bits_witness:
  "Validate defaultConfig defaultConfig = Some 0 \<and>
   Validate defaultConfig
     (defaultConfig\<lparr>WatchDirectory := ''/srv/watch'', IncomingPort := 6881, RssURL := ''http://feed''\<rparr>)
     = Some (NeedRestartWatch OR NeedEngineReConfig) \<and>
   Validate defaultConfig
     (defaultConfig\<lparr>DoneCmd := ''notify.sh'', TrackerListURL := [], SeedRatio := 1\<rparr>)
     = Some 9"
  using Validate_union_of_group_bits [of defaultConfig defaultConfig]
    Validate_union_of_group_bits [of defaultConfig
      "defaultConfig\<lparr>WatchDirectory := ''/srv/watch'', IncomingPort := 6881, RssURL := ''http://feed''\<rparr>"]
    Validate_union_of_group_bits [of defaultConfig
      "defaultConfig\<lparr>DoneCmd := ''notify.sh'', TrackerListURL := [], SeedRatio := 1\<rparr>"]
  by (simp add: defaultConfig_def zeroConfig_def ForbidRuntimeChange_def NeedUpdateTracker_def)

text \<open>
  Claim C9. The loop of \<open>Validate\<close>, which leaves at the first differing field of the
  hot-reconfigurable list, computes the logical OR over all the fields of the list. So
  for two candidate configurations that agree on the three other classified fields, the
  result is the same whenever both or neither differ from the old one somewhere in the
  group, whichever and however many fields differ; and changing only the incoming port
  yields exactly \<open>NeedEngineReConfig\<close>.
\<close>

theorem Validate_short_circuit_is_OR:
  "validateLoop c nc engineFields st =
     Some (if hotReconfigurableDiffers c nc then st OR NeedEngineReConfig else st) \<and>
   (DoneCmd nc = DoneCmd nc' \<and> WatchDirectory nc = WatchDirectory nc' \<and>
    TrackerListURL nc = TrackerListURL nc' \<and>
    hotReconfigurableDiffers c nc = hotReconfigurableDiffers c nc'
    \<longrightarrow> Validate c nc = Validate c nc') \<and>
   (p \<noteq> IncomingPort c \<longrightarrow> Validate c (c\<lparr>IncomingPort := p\<rparr>) = Some NeedEngineReConfig)"
proof (intro conjI impI)
  show "validateLoop c nc engineFields st =
     Some (if hotReconfigurableDiffers c nc then st OR NeedEngineReConfig else st)"
    unfolding hotReconfigurableDiffers_def by (rule validateLoop_engineFields)
next
  assume "DoneCmd nc = DoneCmd nc' \<and> WatchDirectory nc = WatchDirectory nc' \<and>
    TrackerListURL nc = TrackerListURL nc' \<and>
    hotReconfigurableDiffers c nc = hotReconfigurableDiffers c nc'"
  then show "Validate c nc = Validate c nc'"
    unfolding Validate_formula hotReconfigurableDiffers_def by simp
next
  assume "p \<noteq> IncomingPort c"
  then show "Validate c (c\<lparr>IncomingPort := p\<rparr>) = Some NeedEngineReConfig"
    by (auto simp add: Validate_formula)
qed

theorem Validate_short_circuit_is_OR_witness:
  "Validate defaultConfig (defaultConfig\<lparr>IncomingPort := 6881\<rparr>) = Some NeedEngineReConfig \<and>
   Validate defaultConfig (defaultConfig\<lparr>IncomingPort := 6881\<rparr>) =
   Validate defaultConfig (defaultConfig\<lparr>ProxyURL := ''socks5://127.0.0.1:1080'',
      DisableIPv6 := True, UploadRate := ''low''\<rparr>) \<and>
   validateLoop defaultConfig (defaultConfig\<lparr>ProxyURL := ''socks5://127.0.0.1:1080'',
      DisableIPv6 := True, UploadRate := ''low''\<rparr>) engineFields 0 = Some NeedEngineReConfig"
proof -
  let ?a = "defaultConfig\<lparr>IncomingPort := 6881\<rparr>"
  let ?b = "defaultConfig\<lparr>ProxyURL := ''socks5://127.0.0.1:1080'',
      DisableIPv6 := True, UploadRate := ''low''\<rparr>"
  have ne: "6881 \<noteq> IncomingPort defaultConfig"
    by (simp add: defaultConfig_def)
  have same: "DoneCmd ?b = DoneCmd ?a \<and> WatchDirectory ?b = WatchDirectory ?a \<and>
    TrackerListURL ?b = TrackerListURL ?a \<and>
    hotReconfigurableDiffers defaultConfig ?b = hotReconfigurableDiffers defaultConfig ?a"
    by (simp add: hotReconfigurableDiffers_def defaultConfig_def zeroConfig_def)
  have hot: "hotReconfigurableDiffers defaultConfig ?b"
    by (simp add: hotReconfigurableDiffers_def defaultConfig_def zeroConfig_def)
  from Validate_short_circuit_is_OR [of defaultConfig ?b 0 ?a 6881] ne same hot
  show ?thesis
    by simp
qed

section \<open>Properties of \<open>rateLimiter\<close> and the limiter accessors\<close>

text \<open>
  A value within the 32-bit range is held unchanged by \<open>int\<close> at either width; at 64
  bits so is every value within the 64-bit range.
\<close>

lemma wrap_int_small [simp]:
  assumes "- 2147483648 \<le> x" "x < 2147483648"
  shows "wrap_int sz x = x"
proof (cases sz)
  case Bits32
  then show ?thesis
    unfolding wrap_int_def by (simp add: signed_take_bit_int_eq_self assms)
next
  case Bits64
  have "- (2 ^ 63) \<le> x" "x < 2 ^ 63"
    using assms by simp_all
  then show ?thesis
    unfolding wrap_int_def Bits64 by (simp add: signed_take_bit_int_eq_self)
qed

lemma wrap_int_Bits64:
  assumes "- 9223372036854775808 \<le> x" "x < 9223372036854775808"
  shows "wrap_int Bits64 x = x"
  unfolding wrap_int_def using assms by (simp add: signed_take_bit_int_eq_self)

lemma uint_le_max_int32:
  fixes v :: uint64
  shows "(v \<le> 2147483647) = (uint v \<le> 2147483647)"
    and "(2147483647 < v) = (2147483647 < uint v)"
  by (simp_all add: word_le_def word_less_def)

lemma normalize_empty:
  "TrimSpace L [] = []" "ToLower L [] = []"
  by (simp_all add: TrimSpace_def ToLower_def)


lemma asciiSpace_isASCII: "asciiSpace c \<Longrightarrow> isASCII c"
  by (auto simp add: asciiSpace_def isASCII_def)

lemma of_char_lowerASCII:
  "(of_char (lowerASCII c) :: nat) =
     (if 65 \<le> (of_char c :: nat) \<and> (of_char c :: nat) \<le> 90 then of_char c + 32 else of_char c)"
  by (simp add: lowerASCII_def)

lemma isASCII_lowerASCII: "isASCII (lowerASCII c) = isASCII c"
  by (auto simp add: isASCII_def of_char_lowerASCII)

lemma asciiSpace_lowerASCII: "asciiSpace (lowerASCII c) = asciiSpace c"
  by (auto simp add: asciiSpace_def of_char_lowerASCII)

lemma dropWhile_spaces:
  assumes "list_all asciiSpace pre" "xs \<noteq> []" "\<not> asciiSpace (hd xs)"
  shows "dropWhile asciiSpace (pre @ xs) = xs"
proof -
  have "dropWhile asciiSpace (pre @ xs) = dropWhile asciiSpace xs"
    using assms(1) by (induction pre) simp_all
  also have "\<dots> = xs"
    using assms(2,3) by (cases xs) simp_all
  finally show ?thesis .
qed

lemma TrimSpace_ToLower_padded:
  assumes pre: "list_all asciiSpace pre" and post: "list_all asciiSpace post"
    and tok: "map lowerASCII t = tok"
    and ne: "tok \<noteq> []" and ascii: "list_all isASCII tok"
    and first: "\<not> asciiSpace (hd tok)" and final: "\<not> asciiSpace (last tok)"
  shows "ToLower L (TrimSpace L (pre @ t @ post)) = tok"
proof -
  have t_ne: "t \<noteq> []"
    using tok ne by auto
  have t_ascii: "list_all isASCII t"
    using ascii tok by (auto simp add: list_all_iff isASCII_lowerASCII)
  have t_first: "\<not> asciiSpace (hd t)"
    using first tok t_ne by (cases t) (auto simp add: asciiSpace_lowerASCII)
  have t_last: "\<not> asciiSpace (last t)"
    using final tok t_ne by (auto simp add: last_map asciiSpace_lowerASCII)
  have all: "list_all isASCII (pre @ t @ post)"
    using pre post t_ascii by (auto simp add: list_all_iff asciiSpace_isASCII)
  have "dropWhile asciiSpace (pre @ t @ post) = t @ post"
    using pre t_ne t_first by (intro dropWhile_spaces) (simp_all add: hd_append)
  moreover have "dropWhile asciiSpace (rev (t @ post)) = rev t"
  proof -
    have "rev (t @ post) = rev post @ rev t"
      by simp
    moreover have "dropWhile asciiSpace (rev post @ rev t) = rev t"
      using post t_ne t_last by (intro dropWhile_spaces) (simp_all add: hd_rev list_all_iff)
    ultimately show ?thesis by simp
  qed
  ultimately have "TrimSpace L (pre @ t @ post) = t"
    using all by (simp add: TrimSpace_def)
  then show ?thesis
    using t_ascii tok by (simp add: ToLower_def)
qed

lemma rateLimiter_by_token:
  "ToLower L (TrimSpace L s) = ''low'' \<Longrightarrow>
     rateLimiter L s = Inr (NewLimiter (rate_Limit 50000) 150000)"
  "ToLower L (TrimSpace L s) = ''medium'' \<Longrightarrow>
     rateLimiter L s = Inr (NewLimiter (rate_Limit 500000) 1500000)"
  "ToLower L (TrimSpace L s) = ''high'' \<Longrightarrow>
     rateLimiter L s = Inr (NewLimiter (rate_Limit 1500000) 4500000)"
  "ToLower L (TrimSpace L s) = ''unlimited'' \<Longrightarrow> rateLimiter L s = Inr (NewLimiter rate_Inf 0)"
  "ToLower L (TrimSpace L s) = ''0'' \<Longrightarrow> rateLimiter L s = Inr (NewLimiter rate_Inf 0)"
  "ToLower L (TrimSpace L s) = [] \<Longrightarrow> rateLimiter L s = Inr (NewLimiter rate_Inf 0)"
  by (simp_all add: rateLimiter_def)

lemma rateLimiter_padded:
  assumes pre: "list_all asciiSpace pre" and post: "list_all asciiSpace post"
  shows "map lowerASCII t = ''low'' \<Longrightarrow>
           rateLimiter L (pre @ t @ post) = Inr (NewLimiter (rate_Limit 50000) 150000)"
    and "map lowerASCII t = ''medium'' \<Longrightarrow>
           rateLimiter L (pre @ t @ post) = Inr (NewLimiter (rate_Limit 500000) 1500000)"
    and "map lowerASCII t = ''high'' \<Longrightarrow>
           rateLimiter L (pre @ t @ post) = Inr (NewLimiter (rate_Limit 1500000) 4500000)"
    and "map lowerASCII t = ''unlimited'' \<Longrightarrow>
           rateLimiter L (pre @ t @ post) = Inr (NewLimiter rate_Inf 0)"
    and "map lowerASCII t = ''0'' \<Longrightarrow>
           rateLimiter L (pre @ t @ post) = Inr (NewLimiter rate_Inf 0)"
    and "t = [] \<Longrightarrow> rateLimiter L (pre @ t @ post) = Inr (NewLimiter rate_Inf 0)"
proof -
  note norm = TrimSpace_ToLower_padded [OF pre post, of t _ L]
  show "rateLimiter L (pre @ t @ post) = Inr (NewLimiter (rate_Limit 50000) 150000)"
    if "map lowerASCII t = ''low''"
    by (rule rateLimiter_by_token(1), rule norm [OF that]) (simp_all add: isASCII_def asciiSpace_def)
  show "rateLimiter L (pre @ t @ post) = Inr (NewLimiter (rate_Limit 500000) 1500000)"
    if "map lowerASCII t = ''medium''"
    by (rule rateLimiter_by_token(2), rule norm [OF that]) (simp_all add: isASCII_def asciiSpace_def)
  show "rateLimiter L (pre @ t @ post) = Inr (NewLimiter (rate_Limit 1500000) 4500000)"
    if "map lowerASCII t = ''high''"
    by (rule rateLimiter_by_token(3), rule norm [OF that]) (simp_all add: isASCII_def asciiSpace_def)
  show "rateLimiter L (pre @ t @ post) = Inr (NewLimiter rate_Inf 0)"
    if "map lowerASCII t = ''unlimited''"
    by (rule rateLimiter_by_token(4), rule norm [OF that]) (simp_all add: isASCII_def asciiSpace_def)
  show "rateLimiter L (pre @ t @ post) = Inr (NewLimiter rate_Inf 0)"
    if "map lowerASCII t = ''0''"
    by (rule rateLimiter_by_token(5), rule norm [OF that]) (simp_all add: isASCII_def asciiSpace_def)
  show "rateLimiter L (pre @ t @ post) = Inr (NewLimiter rate_Inf 0)" if "t = []"
  proof -
    have all: "list_all isASCII (pre @ post)"
      using pre post by (auto simp add: list_all_iff asciiSpace_isASCII)
    have "\<forall>x\<in>set (pre @ post). asciiSpace x"
      using pre post by (auto simp add: list_all_iff)
    then have dw: "dropWhile asciiSpace (pre @ post) = []"
      by (simp only: dropWhile_eq_Nil_conv)
    have "TrimSpace L (pre @ post) =
        rev (dropWhile asciiSpace (rev (dropWhile asciiSpace (pre @ post))))"
      using all by (simp only: TrimSpace_def if_True)
    also have "\<dots> = []"
      by (simp only: dw) simp
    finally have "TrimSpace L (pre @ t @ post) = []"
      using that by simp
    then show ?thesis
      by (simp add: rateLimiter_by_token(6) normalize_empty)
  qed
qed

lemma rateLimiter_examples:
  "rateLimiter L ''low'' = Inr (NewLimiter (rate_Limit 50000) 150000)"
  "rateLimiter L ''HIGH'' = Inr (NewLimiter (rate_Limit 1500000) 4500000)"
  "rateLimiter L [] = Inr (NewLimiter rate_Inf 0)"
  "rateLimiter L ''0'' = Inr (NewLimiter rate_Inf 0)"
  "rateLimiter L ''unlimited'' = Inr (NewLimiter rate_Inf 0)"
proof -
  have lower: "map lowerASCII ''low'' = ''low''" "map lowerASCII ''HIGH'' = ''high''"
    "map lowerASCII ''0'' = ''0''" "map lowerASCII ''unlimited'' = ''unlimited''"
    by code_simp+
  note pad = rateLimiter_padded [of "[]" "[]" _ L, simplified]
  show "rateLimiter L ''low'' = Inr (NewLimiter (rate_Limit 50000) 150000)"
    by (rule pad(1)) (rule lower)
  show "rateLimiter L ''HIGH'' = Inr (NewLimiter (rate_Limit 1500000) 4500000)"
    by (rule pad(3)) (rule lower)
  show "rateLimiter L [] = Inr (NewLimiter rate_Inf 0)"
    by (rule pad(6)) (rule refl)
  show "rateLimiter L ''0'' = Inr (NewLimiter rate_Inf 0)"
    by (rule pad(5)) (rule lower)
  show "rateLimiter L ''unlimited'' = Inr (NewLimiter rate_Inf 0)"
    by (rule pad(4)) (rule lower)
qed

text \<open>
  Claim C3. For every input string, \<open>rateLimiter\<close> decides on the string trimmed of
  white space and lower-cased: \<open>low\<close> gives rate 50000 with burst 150000, \<open>medium\<close> rate
  500000 with burst 1500000, \<open>high\<close> rate 1500000 with burst 4500000, and \<open>unlimited\<close>,
  \<open>0\<close> and the empty string give the infinite rate with burst 0. In particular a token
  in any letter case, between any ASCII white space, is recognised (whatever the
  library's Unicode paths do), and so are \<open>low\<close>, \<open>HIGH\<close>, the empty string, \<open>0\<close> and
  \<open>unlimited\<close>.
\<close>

theorem rateLimiter_literal_tokens:
  "(ToLower L (TrimSpace L s) = ''low'' \<longrightarrow>
      rateLimiter L s = Inr (NewLimiter (rate_Limit 50000) 150000)) \<and>
   (ToLower L (TrimSpace L s) = ''medium'' \<longrightarrow>
      rateLimiter L s = Inr (NewLimiter (rate_Limit 500000) 1500000)) \<and>
   (ToLower L (TrimSpace L s) = ''high'' \<longrightarrow>
      rateLimiter L s = Inr (NewLimiter (rate_Limit 1500000) 4500000)) \<and>
   (ToLower L (TrimSpace L s) = ''unlimited'' \<or> ToLower L (TrimSpace L s) = ''0'' \<or>
    ToLower L (TrimSpace L s) = [] \<longrightarrow>
      rateLimiter L s = Inr (NewLimiter rate_Inf 0)) \<and>
   (list_all asciiSpace pre \<and> list_all asciiSpace post \<longrightarrow>
      (map lowerASCII t = ''low'' \<longrightarrow>
         rateLimiter L (pre @ t @ post) = Inr (NewLimiter (rate_Limit 50000) 150000)) \<and>
      (map lowerASCII t = ''medium'' \<longrightarrow>
         rateLimiter L (pre @ t @ post) = Inr (NewLimiter (rate_Limit 500000) 1500000)) \<and>
      (map lowerASCII t = ''high'' \<longrightarrow>
         rateLimiter L (pre @ t @ post) = Inr (NewLimiter (rate_Limit 1500000) 4500000)) \<and>
      (map lowerASCII t = ''unlimited'' \<or> map lowerASCII t = ''0'' \<or> t = [] \<longrightarrow>
         rateLimiter L (pre @ t @ post) = Inr (NewLimiter rate_Inf 0))) \<and>
   rateLimiter L ''low'' = Inr (NewLimiter (rate_Limit 50000) 150000) \<and>
   rateLimiter L ''HIGH'' = Inr (NewLimiter (rate_Limit 1500000) 4500000) \<and>
   rateLimiter L [] = Inr (NewLimiter rate_Inf 0) \<and>
   rateLimiter L ''0'' = Inr (NewLimiter rate_Inf 0) \<and>
   rateLimiter L ''unlimited'' = Inr (NewLimiter rate_Inf 0)"
proof -
  note tok = rateLimiter_by_token [of L s]
  note pad = rateLimiter_padded [of pre post t L]
  have a1: "ToLower L (TrimSpace L s) = ''low'' \<longrightarrow>
      rateLimiter L s = Inr (NewLimiter (rate_Limit 50000) 150000)"
    using tok(1) by (rule impI)
  have a2: "ToLower L (TrimSpace L s) = ''medium'' \<longrightarrow>
      rateLimiter L s = Inr (NewLimiter (rate_Limit 500000) 1500000)"
    using tok(2) by (rule impI)
  have a3: "ToLower L (TrimSpace L s) = ''high'' \<longrightarrow>
      rateLimiter L s = Inr (NewLimiter (rate_Limit 1500000) 4500000)"
    using tok(3) by (rule impI)
  have a4: "ToLower L (TrimSpace L s) = ''unlimited'' \<or> ToLower L (TrimSpace L s) = ''0'' \<or>
    ToLower L (TrimSpace L s) = [] \<longrightarrow>
      rateLimiter L s = Inr (NewLimiter rate_Inf 0)"
    using tok(4,5,6) by blast
  have b: "list_all asciiSpace pre \<and> list_all asciiSpace post \<longrightarrow>
      (map lowerASCII t = ''low'' \<longrightarrow>
         rateLimiter L (pre @ t @ post) = Inr (NewLimiter (rate_Limit 50000) 150000)) \<and>
      (map lowerASCII t = ''medium'' \<longrightarrow>
         rateLimiter L (pre @ t @ post) = Inr (NewLimiter (rate_Limit 500000) 1500000)) \<and>
      (map lowerASCII t = ''high'' \<longrightarrow>
         rateLimiter L (pre @ t @ post) = Inr (NewLimiter (rate_Limit 1500000) 4500000)) \<and>
      (map lowerASCII t = ''unlimited'' \<or> map lowerASCII t = ''0'' \<or> t = [] \<longrightarrow>
         rateLimiter L (pre @ t @ post) = Inr (NewLimiter rate_Inf 0))"
    by (intro impI conjI; (elim conjE disjE)?; (rule pad; assumption))
  show ?thesis
    by (intro conjI) (fact a1 a2 a3 a4 b rateLimiter_examples)+
qed

theorem rateLimiter_literal_tokens_witness:
  "rateLimiter
     \<lparr>IntSize = Bits32, unicodeTrimSpace = (\<lambda>s. s), unicodeToLower = (\<lambda>s. s),
      UnmarshalText = (\<lambda>t. Inl (LibraryError ''invalid syntax'')),
      filepath_Abs = (\<lambda>p. Inr p)\<rparr>
     ([CHR 0x09, CHR '' ''] @ ''MeDiUm'' @ [CHR 0x0D, CHR 0x0A])
     = Inr (NewLimiter (rate_Limit 500000) 1500000) \<and>
   rateLimiter
     \<lparr>IntSize = Bits32, unicodeTrimSpace = (\<lambda>s. s), unicodeToLower = (\<lambda>s. s),
      UnmarshalText = (\<lambda>t. Inl (LibraryError ''invalid syntax'')),
      filepath_Abs = (\<lambda>p. Inr p)\<rparr>
     '' Unlimited'' = Inr (NewLimiter rate_Inf 0)"
proof -
  let ?L = "\<lparr>IntSize = Bits32, unicodeTrimSpace = (\<lambda>s. s), unicodeToLower = (\<lambda>s. s),
      UnmarshalText = (\<lambda>t. Inl (LibraryError ''invalid syntax'')),
      filepath_Abs = (\<lambda>p. Inr p)\<rparr>"
  have sp: "list_all asciiSpace [CHR 0x09, CHR '' ''] \<and> list_all asciiSpace [CHR 0x0D, CHR 0x0A]"
    by (simp add: asciiSpace_def)
  have lw: "map lowerASCII ''MeDiUm'' = ''medium''"
    by code_simp
  have norm: "ToLower ?L (TrimSpace ?L '' Unlimited'') = ''unlimited''"
    by code_simp
  from rateLimiter_literal_tokens [of ?L "'' Unlimited''" "[CHR 0x09, CHR '' '']"
      "[CHR 0x0D, CHR 0x0A]" "''MeDiUm''"] sp lw norm
  show ?thesis
    by blast
qed

lemma signed_take_bit_31_period:
  fixes y :: int
  shows "signed_take_bit 31 (y + 4294967296) = signed_take_bit 31 y"
proof -
  have "y + 6442450944 = (y + 2147483648) + 1 * 4294967296"
    by simp
  then have "(y + 6442450944) mod 4294967296 = (y + 2147483648) mod (4294967296 :: int)"
    by (simp only: mod_mult_self1)
  then show ?thesis
    by (simp add: signed_take_bit_eq_take_bit_shift take_bit_eq_mod algebra_simps)
qed

lemma wrap_int_triple:
  "0 \<le> x \<Longrightarrow> x \<le> 2147483647 \<Longrightarrow> wrap_int Bits64 (x * 3) = x * 3"
  "0 \<le> x \<Longrightarrow> x \<le> 715827882 \<Longrightarrow> wrap_int sz (x * 3) = x * 3"
  "715827882 < x \<Longrightarrow> x \<le> 2147483647 \<Longrightarrow> wrap_int Bits32 (x * 3) = x * 3 - 4294967296"
proof -
  show "wrap_int Bits64 (x * 3) = x * 3" if "0 \<le> x" "x \<le> 2147483647"
    by (rule wrap_int_Bits64) (use that in simp_all)
  show "wrap_int sz (x * 3) = x * 3" if "0 \<le> x" "x \<le> 715827882"
    by (rule wrap_int_small) (use that in simp_all)
  show "wrap_int Bits32 (x * 3) = x * 3 - 4294967296" if "715827882 < x" "x \<le> 2147483647"
  proof -
    define y where "y = x * 3 - 4294967296"
    have range: "- (2 ^ 31) \<le> y" "y < 2 ^ 31"
      using that by (simp_all add: y_def)
    have "x * 3 = y + 4294967296"
      by (simp add: y_def)
    then have "signed_take_bit 31 (x * 3) = signed_take_bit 31 y"
      by (simp only: signed_take_bit_31_period)
    also have "\<dots> = y"
      using range by (rule signed_take_bit_int_eq_self)
    finally show ?thesis
      by (simp add: wrap_int_def y_def)
  qed
qed

lemma rateLimiter_parsed:
  assumes "ToLower L (TrimSpace L s) = rstr"
    and "rstr \<notin> {''low'', ''medium'', ''high'', ''unlimited'', ''0'', []}"
    and "UnmarshalText L rstr = Inr v"
  shows "2147483647 < uint v \<Longrightarrow> rateLimiter L s = Inl ExceedIntVal"
    and "uint v \<le> 2147483647 \<Longrightarrow>
           rateLimiter L s =
             Inr (NewLimiter (rate_Limit (uint v)) (wrap_int (IntSize L) (uint v * 3)))"
proof -
  have eq: "rateLimiter L s =
      (if 2147483647 < v then Inl ExceedIntVal
       else Inr (NewLimiter (rate_Limit (wrap_int (IntSize L) (uint v)))
                   (wrap_int (IntSize L) (wrap_int (IntSize L) (uint v) * 3))))"
    using assms by (simp add: rateLimiter_def)
  show "rateLimiter L s = Inl ExceedIntVal" if "2147483647 < uint v"
    using that by (simp add: eq uint_le_max_int32)
  show "rateLimiter L s =
      Inr (NewLimiter (rate_Limit (uint v)) (wrap_int (IntSize L) (uint v * 3)))"
    if "uint v \<le> 2147483647"
  proof -
    have "\<not> 2147483647 < v"
      using that by (simp add: uint_le_max_int32)
    moreover have "wrap_int (IntSize L) (uint v) = uint v"
      by (rule wrap_int_small) (use that uint_ge_0 [of v] in linarith)+
    ultimately show ?thesis
      by (simp add: eq)
  qed
qed

lemma rateLimiter_parsed_Bits32:
  assumes "IntSize L = Bits32"
    and "ToLower L (TrimSpace L s) = rstr"
    and "rstr \<notin> {''low'', ''medium'', ''high'', ''unlimited'', ''0'', []}"
    and "UnmarshalText L rstr = Inr v"
    and "715827882 < uint v" "uint v \<le> 2147483647"
  shows "rateLimiter L s = Inr (NewLimiter (rate_Limit (uint v)) (uint v * 3 - 4294967296))"
  using rateLimiter_parsed(2) [OF assms(2,3,4,6)] wrap_int_triple(3) [OF assms(5,6)]
  by (simp add: assms(1))

lemma rateLimiter_3000000000:
  assumes "UnmarshalText L ''3000000000'' = Inr 3000000000"
  shows "rateLimiter L ''3000000000'' = Inl ExceedIntVal"
proof -
  have norm: "ToLower L (TrimSpace L ''3000000000'') = ''3000000000''"
    by code_simp
  show ?thesis
    by (rule rateLimiter_parsed(1) [OF norm _ assms]) simp_all
qed

text \<open>
  Claim C4. When the normalised string is none of the literal tokens and
  \<open>UnmarshalText\<close> parses it to \<open>v\<close>: above 2147483647 \<open>rateLimiter\<close> fails with the
  "excceed int val" error (so \<open>3000000000\<close> is an error), and otherwise it returns the
  rate \<open>v\<close>. The burst is \<open>3 * v\<close> as the target's \<open>int\<close> holds it: that is \<open>3 * v\<close>
  where \<open>int\<close> has 64 bits, or \<open>v\<close> is at most 715827882, but on a 32-bit \<open>int\<close> every
  larger accepted \<open>v\<close> gives \<open>3 * v - 2^32\<close>. So the burst the claim states is not
  what the code returns there: the rate string \<open>1GB\<close>, parsed to 1073741824, gives the
  burst -1073741824 on a 32-bit target, and 3221225472 on a 64-bit one.
\<close>

theorem rateLimiter_burst_wraps_int32:
  "rateLimiter
     \<lparr>IntSize = Bits32, unicodeTrimSpace = (\<lambda>s. s), unicodeToLower = (\<lambda>s. s),
      UnmarshalText = (\<lambda>t. if t = ''1gb'' then Inr 1073741824
                             else Inl (LibraryError ''invalid syntax'')),
      filepath_Abs = (\<lambda>p. Inr p)\<rparr>
     ''1GB'' = Inr (NewLimiter (rate_Limit 1073741824) (- 1073741824)) \<and>
   rateLimiter
     \<lparr>IntSize = Bits64, unicodeTrimSpace = (\<lambda>s. s), unicodeToLower = (\<lambda>s. s),
      UnmarshalText = (\<lambda>t. if t = ''1gb'' then Inr 1073741824
                             else Inl (LibraryError ''invalid syntax'')),
      filepath_Abs = (\<lambda>p. Inr p)\<rparr>
     ''1GB'' = Inr (NewLimiter (rate_Limit 1073741824) 3221225472)"
  by code_simp

lemma rateLimiter_result:
  assumes "rateLimiter L s = Inr l"
  shows "(limit l = rate_Inf \<longrightarrow> burst l = 0) \<and>
         (\<forall>r. limit l = rate_Limit r \<longrightarrow>
               0 \<le> r \<and> r \<le> 2147483647 \<and> burst l = wrap_int (IntSize L) (r * 3))"
proof -
  define rstr where "rstr = ToLower L (TrimSpace L s)"
  consider (low) "rstr = ''low''" | (medium) "rstr = ''medium''" | (high) "rstr = ''high''"
    | (unlimited) "rstr = ''unlimited'' \<or> rstr = ''0'' \<or> rstr = []"
    | (other) "rstr \<notin> {''low'', ''medium'', ''high'', ''unlimited'', ''0'', []}"
    by blast
  then show ?thesis
  proof cases
    case low
    with assms rateLimiter_by_token(1) [of L s] show ?thesis
      by (simp add: rstr_def NewLimiter_def)
  next
    case medium
    with assms rateLimiter_by_token(2) [of L s] show ?thesis
      by (simp add: rstr_def NewLimiter_def)
  next
    case high
    with assms rateLimiter_by_token(3) [of L s] show ?thesis
      by (simp add: rstr_def NewLimiter_def)
  next
    case unlimited
    with assms rateLimiter_by_token(4,5,6) [of L s] show ?thesis
      by (auto simp add: rstr_def NewLimiter_def)
  next
    case other
    show ?thesis
    proof (cases "UnmarshalText L rstr")
      case (Inl err)
      with other assms show ?thesis
        by (simp add: rateLimiter_def rstr_def [symmetric])
    next
      case (Inr v)
      note parsed = rateLimiter_parsed [OF rstr_def [symmetric] other Inr]
      show ?thesis
      proof (cases "uint v \<le> 2147483647")
        case True
        from parsed(2) [OF True] assms True show ?thesis
          by (auto simp add: NewLimiter_def)
      next
        case False
        then have "2147483647 < uint v"
          by simp
        from parsed(1) [OF this] assms show ?thesis
          by simp
      qed
    qed
  qed
qed

lemma rateLimiter_invariant_Bits64:
  assumes "IntSize L = Bits64" "rateLimiter L s = Inr l"
  shows "(limit l = rate_Inf \<longrightarrow> burst l = 0) \<and>
         (\<forall>r. limit l = rate_Limit r \<longrightarrow> burst l = 3 * r \<and> 0 \<le> r \<and> r \<le> 2147483647)"
  using rateLimiter_result [OF assms(2)] assms(1) by (auto simp add: wrap_int_triple(1))

text \<open>
  Claim C6. Every limiter that \<open>rateLimiter\<close> returns has burst 0 when its rate is
  infinite, and otherwise a rate between 0 and 2147483647 with the burst \<open>3 * rate\<close> as
  the target's \<open>int\<close> holds it. With a 64-bit \<open>int\<close> that is the invariant claimed. With
  a 32-bit \<open>int\<close> the invariant fails for the accepted rates above 715827882: the rate
  string \<open>715827883\<close> gives the rate 715827883 with the burst -2147483647, which is not
  three times the rate.
\<close>

theorem rateLimiter_invariant_fails_int32:
  "\<exists>l. rateLimiter
         \<lparr>IntSize = Bits32, unicodeTrimSpace = (\<lambda>s. s), unicodeToLower = (\<lambda>s. s),
          UnmarshalText = (\<lambda>t. if t = ''715827883'' then Inr 715827883
                                 else Inl (LibraryError ''invalid syntax'')),
          filepath_Abs = (\<lambda>p. Inr p)\<rparr>
         ''715827883'' = Inr l \<and>
       limit l = rate_Limit 715827883 \<and>
       burst l = - 2147483647 \<and>
       burst l \<noteq> 3 * 715827883"
proof -
  have "rateLimiter
         \<lparr>IntSize = Bits32, unicodeTrimSpace = (\<lambda>s. s), unicodeToLower = (\<lambda>s. s),
          UnmarshalText = (\<lambda>t. if t = ''715827883'' then Inr 715827883
                                 else Inl (LibraryError ''invalid syntax'')),
          filepath_Abs = (\<lambda>p. Inr p)\<rparr>
         ''715827883'' = Inr (NewLimiter (rate_Limit 715827883) (- 2147483647))"
    by code_simp
  then show ?thesis
    by (simp add: NewLimiter_def)
qed

text \<open>
  Claim C5. When the upload (respectively download) rate string fails to parse,
  \<open>UploadLimiter\<close> (respectively \<open>DownloadLimiter\<close>) resets that field to the empty
  string, makes one call of \<open>log.Printf\<close> and returns the unlimited limiter; otherwise
  it returns the parsed limiter and leaves the receiver alone. Either way a limiter is
  returned, never an error, and it is the limiter that the rate string now stored
  denotes.
\<close>

theorem limiters_fail_soft:
  "(isl (rateLimiter L (UploadRate c)) \<longrightarrow>
      UploadLimiter L c =
        (c\<lparr>UploadRate := []\<rparr>,
         [Printf ''RateLimit [%s] unreconized, set as unlimited'' [StringV []]],
         NewLimiter rate_Inf 0)) \<and>
   (isl (rateLimiter L (DownloadRate c)) \<longrightarrow>
      DownloadLimiter L c =
        (c\<lparr>DownloadRate := []\<rparr>,
         [Printf ''RateLimit [%s] unreconized, set as unlimited'' [StringV []]],
         NewLimiter rate_Inf 0)) \<and>
   (\<not> isl (rateLimiter L (UploadRate c)) \<longrightarrow>
      UploadLimiter L c = (c, [], projr (rateLimiter L (UploadRate c)))) \<and>
   (\<not> isl (rateLimiter L (DownloadRate c)) \<longrightarrow>
      DownloadLimiter L c = (c, [], projr (rateLimiter L (DownloadRate c)))) \<and>
   rateLimiter L (UploadRate (fst (UploadLimiter L c))) = Inr (snd (snd (UploadLimiter L c))) \<and>
   rateLimiter L (DownloadRate (fst (DownloadLimiter L c))) =
     Inr (snd (snd (DownloadLimiter L c)))"
proof -
  have empty: "rateLimiter L [] = Inr (NewLimiter rate_Inf 0)"
    by (rule rateLimiter_examples)
  have up: "UploadLimiter L c =
      (if isl (rateLimiter L (UploadRate c))
       then (c\<lparr>UploadRate := []\<rparr>,
             [Printf ''RateLimit [%s] unreconized, set as unlimited'' [StringV []]],
             NewLimiter rate_Inf 0)
       else (c, [], projr (rateLimiter L (UploadRate c))))"
    by (cases "rateLimiter L (UploadRate c)") (simp_all add: UploadLimiter_def)
  have down: "DownloadLimiter L c =
      (if isl (rateLimiter L (DownloadRate c))
       then (c\<lparr>DownloadRate := []\<rparr>,
             [Printf ''RateLimit [%s] unreconized, set as unlimited'' [StringV []]],
             NewLimiter rate_Inf 0)
       else (c, [], projr (rateLimiter L (DownloadRate c))))"
    by (cases "rateLimiter L (DownloadRate c)") (simp_all add: DownloadLimiter_def)
  have up_stable: "rateLimiter L (UploadRate (fst (UploadLimiter L c))) =
      Inr (snd (snd (UploadLimiter L c)))"
    by (cases "rateLimiter L (UploadRate c)") (simp_all add: up empty)
  have down_stable: "rateLimiter L (DownloadRate (fst (DownloadLimiter L c))) =
      Inr (snd (snd (DownloadLimiter L c)))"
    by (cases "rateLimiter L (DownloadRate c)") (simp_all add: down empty)
  have c1: "isl (rateLimiter L (UploadRate c)) \<longrightarrow>
      UploadLimiter L c =
        (c\<lparr>UploadRate := []\<rparr>,
         [Printf ''RateLimit [%s] unreconized, set as unlimited'' [StringV []]],
         NewLimiter rate_Inf 0)"
    by (simp add: up)
  have c2: "isl (rateLimiter L (DownloadRate c)) \<longrightarrow>
      DownloadLimiter L c =
        (c\<lparr>DownloadRate := []\<rparr>,
         [Printf ''RateLimit [%s] unreconized, set as unlimited'' [StringV []]],
         NewLimiter rate_Inf 0)"
    by (simp add: down)
  have c3: "\<not> isl (rateLimiter L (UploadRate c)) \<longrightarrow>
      UploadLimiter L c = (c, [], projr (rateLimiter L (UploadRate c)))"
    by (simp add: up)
  have c4: "\<not> isl (rateLimiter L (DownloadRate c)) \<longrightarrow>
      DownloadLimiter L c = (c, [], projr (rateLimiter L (DownloadRate c)))"
    by (simp add: down)
  show ?thesis
    by (intro conjI) (fact c1 c2 c3 c4 up_stable down_stable)+
qed

theorem limiters_fail_soft_witness:
  "UploadLimiter
     \<lparr>IntSize = Bits32, unicodeTrimSpace = (\<lambda>s. s), unicodeToLower = (\<lambda>s. s),
      UnmarshalText = (\<lambda>t. if t = ''3000000000'' then Inr 3000000000
                             else Inl (LibraryError ''invalid syntax'')),
      filepath_Abs = (\<lambda>p. Inr p)\<rparr>
     (defaultConfig\<lparr>UploadRate := ''fast'', DownloadRate := ''3000000000''\<rparr>)
   = (defaultConfig\<lparr>UploadRate := [], DownloadRate := ''3000000000''\<rparr>,
      [Printf ''RateLimit [%s] unreconized, set as unlimited'' [StringV []]],
      NewLimiter rate_Inf 0) \<and>
   DownloadLimiter
     \<lparr>IntSize = Bits32, unicodeTrimSpace = (\<lambda>s. s), unicodeToLower = (\<lambda>s. s),
      UnmarshalText = (\<lambda>t. if t = ''3000000000'' then Inr 3000000000
                             else Inl (LibraryError ''invalid syntax'')),
      filepath_Abs = (\<lambda>p. Inr p)\<rparr>
     (defaultConfig\<lparr>UploadRate := ''fast'', DownloadRate := ''3000000000''\<rparr>)
   = (defaultConfig\<lparr>UploadRate := ''fast'', DownloadRate := []\<rparr>,
      [Printf ''RateLimit [%s] unreconized, set as unlimited'' [StringV []]],
      NewLimiter rate_Inf 0) \<and>
   UploadLimiter
     \<lparr>IntSize = Bits32, unicodeTrimSpace = (\<lambda>s. s), unicodeToLower = (\<lambda>s. s),
      UnmarshalText = (\<lambda>t. if t = ''3000000000'' then Inr 3000000000
                             else Inl (LibraryError ''invalid syntax'')),
      filepath_Abs = (\<lambda>p. Inr p)\<rparr>
     (defaultConfig\<lparr>UploadRate := ''Low''\<rparr>)
   = (defaultConfig\<lparr>UploadRate := ''Low''\<rparr>, [], NewLimiter (rate_Limit 50000) 150000)"
proof -
  let ?L = "\<lparr>IntSize = Bits32, unicodeTrimSpace = (\<lambda>s. s), unicodeToLower = (\<lambda>s. s),
      UnmarshalText = (\<lambda>t. if t = ''3000000000'' then Inr (3000000000 :: uint64)
                             else Inl (LibraryError ''invalid syntax'')),
      filepath_Abs = (\<lambda>p. Inr p)\<rparr>"
  let ?c = "defaultConfig\<lparr>UploadRate := ''fast'', DownloadRate := ''3000000000''\<rparr>"
  have u: "rateLimiter ?L ''fast'' = Inl (LibraryError ''invalid syntax'')"
    by code_simp
  have d: "rateLimiter ?L ''3000000000'' = Inl ExceedIntVal"
    by code_simp
  have l: "rateLimiter ?L ''Low'' = Inr (NewLimiter (rate_Limit 50000) 150000)"
    by code_simp
  from limiters_fail_soft [of ?L ?c] limiters_fail_soft [of ?L "defaultConfig\<lparr>UploadRate := ''Low''\<rparr>"]
    u d l
  show ?thesis
    by simp
qed

section \<open>Properties of \<open>NormlizeConfigDir\<close>\<close>

lemma NormlizeConfigDir_download_error:
  assumes "DownloadDirectory c \<noteq> []" "filepath_Abs L (DownloadDirectory c) = Inl err"
  shows "NormlizeConfigDir L c = (c, False, Some (InvalidPath (WatchDirectory c) err))"
  using assms by (simp add: NormlizeConfigDir_def)

lemma NormlizeConfigDir_watch_error:
  assumes "DownloadDirectory c = [] \<or> filepath_Abs L (DownloadDirectory c) = Inr d"
    and "WatchDirectory c \<noteq> []" "filepath_Abs L (WatchDirectory c) = Inl err"
  shows "NormlizeConfigDir L c =
    (c\<lparr>DownloadDirectory := (if DownloadDirectory c = [] then [] else d)\<rparr>, False,
     Some (InvalidPath (WatchDirectory c) err))"
  using assms by (auto simp add: NormlizeConfigDir_def)

lemma NormlizeConfigDir_success:
  assumes "DownloadDirectory c = [] \<or> filepath_Abs L (DownloadDirectory c) = Inr d"
    and "WatchDirectory c = [] \<or> filepath_Abs L (WatchDirectory c) = Inr w"
  shows "NormlizeConfigDir L c =
    (c\<lparr>DownloadDirectory := (if DownloadDirectory c = [] then [] else d),
       WatchDirectory := (if WatchDirectory c = [] then [] else w)\<rparr>,
     (DownloadDirectory c \<noteq> [] \<and> DownloadDirectory c \<noteq> d) \<or>
     (WatchDirectory c \<noteq> [] \<and> WatchDirectory c \<noteq> w),
     None)"
  using assms by (auto simp add: NormlizeConfigDir_def)

lemma NormlizeConfigDir_None_cases:
  assumes "NormlizeConfigDir L c = (c', ch, None)"
  shows "(DownloadDirectory c = [] \<or> (\<exists>d. filepath_Abs L (DownloadDirectory c) = Inr d)) \<and>
         (WatchDirectory c = [] \<or> (\<exists>w. filepath_Abs L (WatchDirectory c) = Inr w))"
proof -
  have dl: "DownloadDirectory c = [] \<or> (\<exists>d. filepath_Abs L (DownloadDirectory c) = Inr d)"
  proof (rule ccontr)
    assume "\<not> ?thesis"
    then obtain err where "DownloadDirectory c \<noteq> []"
      "filepath_Abs L (DownloadDirectory c) = Inl err"
      by (cases "filepath_Abs L (DownloadDirectory c)") auto
    from NormlizeConfigDir_download_error [OF this] assms show False
      by simp
  qed
  then obtain d where d: "DownloadDirectory c = [] \<or> filepath_Abs L (DownloadDirectory c) = Inr d"
    by blast
  have "WatchDirectory c = [] \<or> (\<exists>w. filepath_Abs L (WatchDirectory c) = Inr w)"
  proof (rule ccontr)
    assume "\<not> ?thesis"
    then obtain err where "WatchDirectory c \<noteq> []"
      "filepath_Abs L (WatchDirectory c) = Inl err"
      by (cases "filepath_Abs L (WatchDirectory c)") auto
    from NormlizeConfigDir_watch_error [OF d this] assms show False
      by simp
  qed
  with dl show ?thesis ..
qed

lemma NormlizeConfigDir_Some_cases:
  assumes "NormlizeConfigDir L c = (c', ch, Some e)"
  shows "(\<exists>err. DownloadDirectory c \<noteq> [] \<and> filepath_Abs L (DownloadDirectory c) = Inl err) \<or>
         (\<exists>d err. (DownloadDirectory c = [] \<or> filepath_Abs L (DownloadDirectory c) = Inr d) \<and>
                   WatchDirectory c \<noteq> [] \<and> filepath_Abs L (WatchDirectory c) = Inl err)"
proof (rule ccontr)
  assume n: "\<not> ?thesis"
  then have "DownloadDirectory c = [] \<or> (\<exists>d. filepath_Abs L (DownloadDirectory c) = Inr d)"
    by (cases "filepath_Abs L (DownloadDirectory c)") auto
  then obtain d where d: "DownloadDirectory c = [] \<or> filepath_Abs L (DownloadDirectory c) = Inr d"
    by blast
  with n have "WatchDirectory c = [] \<or> (\<exists>w. filepath_Abs L (WatchDirectory c) = Inr w)"
    by (cases "filepath_Abs L (WatchDirectory c)") auto
  then obtain w where "WatchDirectory c = [] \<or> filepath_Abs L (WatchDirectory c) = Inr w"
    by blast
  from NormlizeConfigDir_success [OF d this] assms show False
    by simp
qed


text \<open>
  Claim C8. \<open>NormlizeConfigDir\<close> leaves an empty path alone: with both directories
  empty it returns the receiver unchanged with \<open>changed = false\<close>, without calling
  \<open>filepath.Abs\<close>. A non-empty path is replaced by what \<open>filepath.Abs\<close> resolves it to,
  and \<open>changed\<close> is true iff a resolved path differs from the one stored (for one
  directory alone, iff its resolved form differs from the input). A configuration whose
  non-empty paths are already canonical (\<open>filepath.Abs\<close> returns them as they are) comes
  back unchanged with \<open>changed = false\<close>; and when \<open>filepath.Abs\<close> is idempotent, running
  \<open>NormlizeConfigDir\<close> on its own result changes nothing.
\<close>

theorem NormlizeConfigDir_canonicalizes:
  "(DownloadDirectory c = [] \<and> WatchDirectory c = [] \<longrightarrow>
      NormlizeConfigDir L c = (c, False, None)) \<and>
   (DownloadDirectory c \<noteq> [] \<and> WatchDirectory c = [] \<and>
    filepath_Abs L (DownloadDirectory c) = Inr d \<longrightarrow>
      NormlizeConfigDir L c = (c\<lparr>DownloadDirectory := d\<rparr>, d \<noteq> DownloadDirectory c, None)) \<and>
   (DownloadDirectory c = [] \<and> WatchDirectory c \<noteq> [] \<and>
    filepath_Abs L (WatchDirectory c) = Inr w \<longrightarrow>
      NormlizeConfigDir L c = (c\<lparr>WatchDirectory := w\<rparr>, w \<noteq> WatchDirectory c, None)) \<and>
   (DownloadDirectory c \<noteq> [] \<and> WatchDirectory c \<noteq> [] \<and>
    filepath_Abs L (DownloadDirectory c) = Inr d \<and> filepath_Abs L (WatchDirectory c) = Inr w \<longrightarrow>
      NormlizeConfigDir L c =
        (c\<lparr>DownloadDirectory := d, WatchDirectory := w\<rparr>,
         d \<noteq> DownloadDirectory c \<or> w \<noteq> WatchDirectory c, None)) \<and>
   ((DownloadDirectory c = [] \<or> filepath_Abs L (DownloadDirectory c) = Inr (DownloadDirectory c)) \<and>
    (WatchDirectory c = [] \<or> filepath_Abs L (WatchDirectory c) = Inr (WatchDirectory c)) \<longrightarrow>
      NormlizeConfigDir L c = (c, False, None)) \<and>
   ((\<forall>p q. filepath_Abs L p = Inr q \<longrightarrow> filepath_Abs L q = Inr q) \<and>
    NormlizeConfigDir L c = (c', ch, None) \<longrightarrow>
      NormlizeConfigDir L c' = (c', False, None))"
proof (intro conjI impI)
  assume "DownloadDirectory c = [] \<and> WatchDirectory c = []"
  then show "NormlizeConfigDir L c = (c, False, None)"
    using NormlizeConfigDir_success [of c L d w] by simp
next
  assume "DownloadDirectory c \<noteq> [] \<and> WatchDirectory c = [] \<and>
    filepath_Abs L (DownloadDirectory c) = Inr d"
  then show "NormlizeConfigDir L c = (c\<lparr>DownloadDirectory := d\<rparr>, d \<noteq> DownloadDirectory c, None)"
    using NormlizeConfigDir_success [of c L d w] by auto
next
  assume "DownloadDirectory c = [] \<and> WatchDirectory c \<noteq> [] \<and>
    filepath_Abs L (WatchDirectory c) = Inr w"
  then show "NormlizeConfigDir L c = (c\<lparr>WatchDirectory := w\<rparr>, w \<noteq> WatchDirectory c, None)"
    using NormlizeConfigDir_success [of c L d w] by auto
next
  assume "DownloadDirectory c \<noteq> [] \<and> WatchDirectory c \<noteq> [] \<and>
    filepath_Abs L (DownloadDirectory c) = Inr d \<and> filepath_Abs L (WatchDirectory c) = Inr w"
  then show "NormlizeConfigDir L c =
        (c\<lparr>DownloadDirectory := d, WatchDirectory := w\<rparr>,
         d \<noteq> DownloadDirectory c \<or> w \<noteq> WatchDirectory c, None)"
    using NormlizeConfigDir_success [of c L d w] by auto
next
  assume "(DownloadDirectory c = [] \<or> filepath_Abs L (DownloadDirectory c) = Inr (DownloadDirectory c)) \<and>
    (WatchDirectory c = [] \<or> filepath_Abs L (WatchDirectory c) = Inr (WatchDirectory c))"
  then show "NormlizeConfigDir L c = (c, False, None)"
    using NormlizeConfigDir_success [of c L "DownloadDirectory c" "WatchDirectory c"] by simp
next
  assume h: "(\<forall>p q. filepath_Abs L p = Inr q \<longrightarrow> filepath_Abs L q = Inr q) \<and>
    NormlizeConfigDir L c = (c', ch, None)"
  then have idem: "\<And>p q. filepath_Abs L p = Inr q \<Longrightarrow> filepath_Abs L q = Inr q"
    and run: "NormlizeConfigDir L c = (c', ch, None)"
    by blast+
  from NormlizeConfigDir_None_cases [OF run] obtain d0 w0
    where d0: "DownloadDirectory c = [] \<or> filepath_Abs L (DownloadDirectory c) = Inr d0"
      and w0: "WatchDirectory c = [] \<or> filepath_Abs L (WatchDirectory c) = Inr w0"
    by blast
  from NormlizeConfigDir_success [OF d0 w0] run
  have c': "c' = c\<lparr>DownloadDirectory := (if DownloadDirectory c = [] then [] else d0),
       WatchDirectory := (if WatchDirectory c = [] then [] else w0)\<rparr>"
    by simp
  have dl: "DownloadDirectory c' = [] \<or> filepath_Abs L (DownloadDirectory c') = Inr (DownloadDirectory c')"
    using d0 idem [of "DownloadDirectory c" d0] by (auto simp add: c')
  have wd: "WatchDirectory c' = [] \<or> filepath_Abs L (WatchDirectory c') = Inr (WatchDirectory c')"
    using w0 idem [of "WatchDirectory c" w0] by (auto simp add: c')
  from NormlizeConfigDir_success [OF dl wd]
  show "NormlizeConfigDir L c' = (c', False, None)"
    by simp
qed

theorem NormlizeConfigDir_canonicalizes_witness:
  "NormlizeConfigDir
     \<lparr>IntSize = Bits64, unicodeTrimSpace = (\<lambda>s. s), unicodeToLower = (\<lambda>s. s),
      UnmarshalText = (\<lambda>t. Inl (LibraryError ''invalid syntax'')),
      filepath_Abs = (\<lambda>p. if hd p = CHR ''/'' then Inr p else Inr (''/srv/'' @ p))\<rparr>
     (defaultConfig\<lparr>DownloadDirectory := ''downloads'', WatchDirectory := ''/var/watch''\<rparr>)
   = (defaultConfig\<lparr>DownloadDirectory := ''/srv/downloads'', WatchDirectory := ''/var/watch''\<rparr>,
      True, None) \<and>
   NormlizeConfigDir
     \<lparr>IntSize = Bits64, unicodeTrimSpace = (\<lambda>s. s), unicodeToLower = (\<lambda>s. s),
      UnmarshalText = (\<lambda>t. Inl (LibraryError ''invalid syntax'')),
      filepath_Abs = (\<lambda>p. if hd p = CHR ''/'' then Inr p else Inr (''/srv/'' @ p))\<rparr>
     (defaultConfig\<lparr>DownloadDirectory := ''/srv/downloads'', WatchDirectory := ''/var/watch''\<rparr>)
   = (defaultConfig\<lparr>DownloadDirectory := ''/srv/downloads'', WatchDirectory := ''/var/watch''\<rparr>,
      False, None) \<and>
   NormlizeConfigDir
     \<lparr>IntSize = Bits64, unicodeTrimSpace = (\<lambda>s. s), unicodeToLower = (\<lambda>s. s),
      UnmarshalText = (\<lambda>t. Inl (LibraryError ''invalid syntax'')),
      filepath_Abs = (\<lambda>p. if hd p = CHR ''/'' then Inr p else Inr (''/srv/'' @ p))\<rparr>
     zeroConfig
   = (zeroConfig, False, None)"
proof -
  let ?L = "\<lparr>IntSize = Bits64, unicodeTrimSpace = (\<lambda>s. s), unicodeToLower = (\<lambda>s. s),
      UnmarshalText = (\<lambda>t. Inl (LibraryError ''invalid syntax'')),
      filepath_Abs = (\<lambda>p. if hd p = CHR ''/'' then Inr p else Inr (''/srv/'' @ p))\<rparr>"
  let ?c = "defaultConfig\<lparr>DownloadDirectory := ''downloads'', WatchDirectory := ''/var/watch''\<rparr>"
  let ?c' = "defaultConfig\<lparr>DownloadDirectory := ''/srv/downloads'', WatchDirectory := ''/var/watch''\<rparr>"
  have idem: "\<forall>p q. filepath_Abs ?L p = Inr q \<longrightarrow> filepath_Abs ?L q = Inr q"
    by (auto split: if_splits)
  have both: "DownloadDirectory ?c \<noteq> [] \<and> WatchDirectory ?c \<noteq> [] \<and>
      filepath_Abs ?L (DownloadDirectory ?c) = Inr ''/srv/downloads'' \<and>
      filepath_Abs ?L (WatchDirectory ?c) = Inr ''/var/watch''"
    by simp
  have empty: "DownloadDirectory zeroConfig = [] \<and> WatchDirectory zeroConfig = []"
    by (simp add: zeroConfig_def)
  note first = NormlizeConfigDir_canonicalizes [of ?c ?L "''/srv/downloads''" "''/var/watch''" ?c' True]
  note zero = NormlizeConfigDir_canonicalizes [of zeroConfig ?L]
  from first both have run: "NormlizeConfigDir ?L ?c = (?c', True, None)"
    by simp
  from first idem run have again: "NormlizeConfigDir ?L ?c' = (?c', False, None)"
    by blast
  from zero empty have z: "NormlizeConfigDir ?L zeroConfig = (zeroConfig, False, None)"
    by blast
  from run again z show ?thesis
    by blast
qed

text \<open>
  Claim C10. Whenever \<open>NormlizeConfigDir\<close> returns an error, the returned boolean is
  false and the receiver differs from the one it was given at most in
  \<open>DownloadDirectory\<close> and \<open>WatchDirectory\<close> (in fact \<open>WatchDirectory\<close> is as before). When
  the download directory resolves and the watch directory then fails to, the rewritten
  \<open>DownloadDirectory\<close> is kept while \<open>changed = false\<close> is reported.
\<close>

theorem NormlizeConfigDir_error_frame:
  "(NormlizeConfigDir L c = (c', changed, Some e) \<longrightarrow>
      changed = False \<and>
      c' = c\<lparr>DownloadDirectory := DownloadDirectory c', WatchDirectory := WatchDirectory c'\<rparr> \<and>
      WatchDirectory c' = WatchDirectory c \<and>
      (\<exists>err. e = InvalidPath (WatchDirectory c) err)) \<and>
   (DownloadDirectory c \<noteq> [] \<and> filepath_Abs L (DownloadDirectory c) = Inr d \<and>
    WatchDirectory c \<noteq> [] \<and> filepath_Abs L (WatchDirectory c) = Inl err \<longrightarrow>
      NormlizeConfigDir L c =
        (c\<lparr>DownloadDirectory := d\<rparr>, False, Some (InvalidPath (WatchDirectory c) err)))"
proof (intro conjI impI)
  assume run: "NormlizeConfigDir L c = (c', changed, Some e)"
  from NormlizeConfigDir_Some_cases [OF run]
  consider (download) err where "DownloadDirectory c \<noteq> []"
      "filepath_Abs L (DownloadDirectory c) = Inl err"
    | (watch) d err where
      "DownloadDirectory c = [] \<or> filepath_Abs L (DownloadDirectory c) = Inr d"
      "WatchDirectory c \<noteq> []" "filepath_Abs L (WatchDirectory c) = Inl err"
    by blast
  then have "changed = False \<and>
      c' = c\<lparr>DownloadDirectory := DownloadDirectory c', WatchDirectory := WatchDirectory c'\<rparr> \<and>
      WatchDirectory c' = WatchDirectory c \<and>
      (\<exists>err. e = InvalidPath (WatchDirectory c) err)"
  proof cases
    case download
    from NormlizeConfigDir_download_error [OF download] run show ?thesis
      by auto
  next
    case watch
    from NormlizeConfigDir_watch_error [OF watch] run show ?thesis
      by auto
  qed
  then show "changed = False"
    and "c' = c\<lparr>DownloadDirectory := DownloadDirectory c', WatchDirectory := WatchDirectory c'\<rparr>"
    and "WatchDirectory c' = WatchDirectory c"
    and "\<exists>err. e = InvalidPath (WatchDirectory c) err"
    by blast+
next
  assume "DownloadDirectory c \<noteq> [] \<and> filepath_Abs L (DownloadDirectory c) = Inr d \<and>
    WatchDirectory c \<noteq> [] \<and> filepath_Abs L (WatchDirectory c) = Inl err"
  then show "NormlizeConfigDir L c =
        (c\<lparr>DownloadDirectory := d\<rparr>, False, Some (InvalidPath (WatchDirectory c) err))"
    using NormlizeConfigDir_watch_error [of c L d err] by simp
qed

theorem NormlizeConfigDir_error_frame_witness:
  "NormlizeConfigDir
     \<lparr>IntSize = Bits64, unicodeTrimSpace = (\<lambda>s. s), unicodeToLower = (\<lambda>s. s),
      UnmarshalText = (\<lambda>t. Inl (LibraryError ''invalid syntax'')),
      filepath_Abs = (\<lambda>p. if hd p = CHR ''/'' then Inr (''/mnt'' @ tl p)
                            else Inl (LibraryError ''getwd: no such file or directory''))\<rparr>
     (defaultConfig\<lparr>DownloadDirectory := ''//data''\<rparr>)
   = (defaultConfig\<lparr>DownloadDirectory := ''/mnt/data''\<rparr>, False,
      Some (InvalidPath ''./torrents'' (LibraryError ''getwd: no such file or directory''))) \<and>
   WatchDirectory (defaultConfig\<lparr>DownloadDirectory := ''/mnt/data''\<rparr>) = ''./torrents''"
proof -
  let ?L = "\<lparr>IntSize = Bits64, unicodeTrimSpace = (\<lambda>s. s), unicodeToLower = (\<lambda>s. s),
      UnmarshalText = (\<lambda>t. Inl (LibraryError ''invalid syntax'')),
      filepath_Abs = (\<lambda>p. if hd p = CHR ''/'' then Inr (''/mnt'' @ tl p)
                            else Inl (LibraryError ''getwd: no such file or directory''))\<rparr>"
  let ?c = "defaultConfig\<lparr>DownloadDirectory := ''//data''\<rparr>"
  have h: "DownloadDirectory ?c \<noteq> [] \<and> filepath_Abs ?L (DownloadDirectory ?c) = Inr ''/mnt/data'' \<and>
    WatchDirectory ?c \<noteq> [] \<and>
    filepath_Abs ?L (WatchDirectory ?c) = Inl (LibraryError ''getwd: no such file or directory'')"
    by (simp add: defaultConfig_def zeroConfig_def)
  note frame = NormlizeConfigDir_error_frame [of ?L ?c "?c\<lparr>DownloadDirectory := ''/mnt/data''\<rparr>" False
      "InvalidPath ''./torrents'' (LibraryError ''getwd: no such file or directory'')"
      "''/mnt/data''" "LibraryError ''getwd: no such file or directory''"]
  have w: "WatchDirectory ?c = ''./torrents''"
    by (simp add: defaultConfig_def zeroConfig_def)
  from frame h have run: "NormlizeConfigDir ?L ?c =
      (?c\<lparr>DownloadDirectory := ''/mnt/data''\<rparr>, False,
       Some (InvalidPath (WatchDirectory ?c) (LibraryError ''getwd: no such file or directory'')))"
    by blast
  with frame have "WatchDirectory (?c\<lparr>DownloadDirectory := ''/mnt/data''\<rparr>) = WatchDirectory ?c"
    by simp
  with run w show ?thesis
    by simp
qed

section \<open>Properties of \<open>SyncViper\<close>\<close>

text \<open>The loop, started at field \<open>i\<close>, appends one call and one log line for each differing field from \<open>i\<close> on.\<close>

lemma syncLoop_filter:
  "syncLoop c nc i (calls, logs) =
     (calls @ map (\<lambda>i. viper_Set (Field_Name c i) (Value_Field nc i))
                (filter (\<lambda>i. iface_neq (Value_Field c i) (Value_Field nc i)) [i..<NumField c]),
      logs @ map (\<lambda>i. Println [StringV ''config updated '', StringV (Field_Name c i),
                               StringV '': '', Value_Field c i, StringV '' -> '', Value_Field nc i])
               (filter (\<lambda>i. iface_neq (Value_Field c i) (Value_Field nc i)) [i..<NumField c]))"
proof (induction "NumField c - i" arbitrary: i calls logs)
  case 0
  then have "\<not> i < NumField c"
    by simp
  then show ?case
    by (simp add: syncLoop.simps [of c nc i])
next
  case (Suc n)
  then have lt: "i < NumField c" and n: "n = NumField c - (i + 1)"
    by simp_all
  have upt: "[i..<NumField c] = i # [i + 1..<NumField c]"
    using lt by (simp add: upt_conv_Cons)
  show ?case
  proof (cases "iface_neq (Value_Field c i) (Value_Field nc i)")
    case True
    then show ?thesis
      using lt upt Suc.hyps(1) [OF n]
      by (subst syncLoop.simps) (simp del: syncLoop.simps add: Let_def)
  next
    case False
    then show ?thesis
      using lt upt Suc.hyps(1) [OF n]
      by (subst syncLoop.simps) (simp del: syncLoop.simps add: Let_def)
  qed
qed

lemma NumField_20: "NumField c = 20"
  by (simp add: NumField_def structFields_def)

lemma Field_Name_inj:
  assumes "i < NumField c" "j < NumField c" "Field_Name c i = Field_Name c j"
  shows "i = j"
proof -
  have d: "distinct (map fst (structFields c))"
    by (simp add: structFields_def)
  have len: "i < length (map fst (structFields c))" "j < length (map fst (structFields c))"
    using assms(1,2) by (simp_all add: NumField_def)
  have "map fst (structFields c) ! i = map fst (structFields c) ! j"
    using assms by (simp add: Field_Name_def NumField_def)
  with nth_eq_iff_index_eq [OF d len] show ?thesis
    by simp
qed

lemma SyncViper_eq:
  "SyncViper V c nc =
     (c,
      map (\<lambda>i. viper_Set (Field_Name c i) (Value_Field nc i))
          (filter (\<lambda>i. iface_neq (Value_Field c i) (Value_Field nc i)) [0..<NumField c])
        @ [viper_WriteConfigAs (ConfigFileUsed V)],
      map (\<lambda>i. Println [StringV ''config updated '', StringV (Field_Name c i),
                         StringV '': '', Value_Field c i, StringV '' -> '', Value_Field nc i])
          (filter (\<lambda>i. iface_neq (Value_Field c i) (Value_Field nc i)) [0..<NumField c]),
      WriteConfigAs V
        (map (\<lambda>i. viper_Set (Field_Name c i) (Value_Field nc i))
             (filter (\<lambda>i. iface_neq (Value_Field c i) (Value_Field nc i)) [0..<NumField c]))
        (ConfigFileUsed V))"
  by (simp add: SyncViper_def syncLoop_filter Let_def del: syncLoop.simps)


text \<open>
  Claim C2. \<open>SyncViper\<close> ends with its only call of \<open>viper.WriteConfigAs\<close>, made after
  the staged \<open>viper.Set\<close> calls, and returns that call's result: if the write fails with
  \<open>e\<close>, \<open>SyncViper\<close> returns \<open>e\<close>, and the receiver (the old, active configuration) is
  as it was given.
\<close>

theorem SyncViper_failed_write:
  assumes "SyncViper V c nc = (c', calls, logs, err)"
    and "WriteConfigAs V (butlast calls) (ConfigFileUsed V) = Some e"
  shows "err = Some e \<and> c' = c \<and>
         last calls = viper_WriteConfigAs (ConfigFileUsed V) \<and>
         (\<forall>p. viper_WriteConfigAs p \<notin> set (butlast calls))"
proof -
  let ?sets = "map (\<lambda>i. viper_Set (Field_Name c i) (Value_Field nc i))
      (filter (\<lambda>i. iface_neq (Value_Field c i) (Value_Field nc i)) [0..<NumField c])"
  from assms(1) have c': "c' = c"
    and calls: "calls = ?sets @ [viper_WriteConfigAs (ConfigFileUsed V)]"
    and err: "err = WriteConfigAs V ?sets (ConfigFileUsed V)"
    unfolding SyncViper_eq by blast+
  have bl: "butlast calls = ?sets"
    by (simp add: calls butlast_append)
  have nowrite: "\<forall>p. viper_WriteConfigAs p \<notin> set ?sets"
    by auto
  from assms(2) have "err = Some e"
    by (simp only: err bl)
  moreover have "last calls = viper_WriteConfigAs (ConfigFileUsed V)"
    by (simp add: calls)
  ultimately show ?thesis
    using c' nowrite by (simp only: bl simp_thms)
qed

theorem SyncViper_failed_write_witness:
  "SyncViper
     \<lparr>ConfigFileUsed = ''cloud-torrent.yaml'',
      WriteConfigAs = (\<lambda>calls path. Some (LibraryError ''permission denied''))\<rparr>
     defaultConfig (defaultConfig\<lparr>IncomingPort := 6881\<rparr>)
   = (defaultConfig,
      [viper_Set ''IncomingPort'' (IntV 6881), viper_WriteConfigAs ''cloud-torrent.yaml''],
      [Println [StringV ''config updated '', StringV ''IncomingPort'', StringV '': '',
                IntV 50007, StringV '' -> '', IntV 6881]],
      Some (LibraryError ''permission denied''))"
proof -
  let ?V = "\<lparr>ConfigFileUsed = ''cloud-torrent.yaml'',
      WriteConfigAs = (\<lambda>calls path. Some (LibraryError ''permission denied''))\<rparr>"
  obtain c' calls logs err
    where run: "SyncViper ?V defaultConfig (defaultConfig\<lparr>IncomingPort := 6881\<rparr>) =
      (c', calls, logs, err)"
    by (cases "SyncViper ?V defaultConfig (defaultConfig\<lparr>IncomingPort := 6881\<rparr>)") auto
  have w: "WriteConfigAs ?V (butlast calls) (ConfigFileUsed ?V) =
      Some (LibraryError ''permission denied'')"
    by simp
  have ev: "fst (snd (SyncViper ?V defaultConfig (defaultConfig\<lparr>IncomingPort := 6881\<rparr>))) =
      [viper_Set ''IncomingPort'' (IntV 6881), viper_WriteConfigAs ''cloud-torrent.yaml'']"
    "fst (snd (snd (SyncViper ?V defaultConfig (defaultConfig\<lparr>IncomingPort := 6881\<rparr>)))) =
      [Println [StringV ''config updated '', StringV ''IncomingPort'', StringV '': '',
                IntV 50007, StringV '' -> '', IntV 6881]]"
    by code_simp+
  from SyncViper_failed_write [OF run w] have "err = Some (LibraryError ''permission denied'')"
    and "c' = defaultConfig"
    by simp_all
  with run ev show ?thesis
    by simp
qed

text \<open>
  Claim C7. With "differ" read as Go's \<open>!=\<close> on the boxed field values, \<open>SyncViper\<close>
  makes one \<open>viper.Set(name, new value)\<close> call and one \<open>log.Println\<close> call for each of
  the twenty fields whose old and new values differ, in declaration order, none for a
  field whose values are equal, and then exactly one \<open>viper.WriteConfigAs\<close> on the path
  of \<open>viper.ConfigFileUsed()\<close>. For the old \<open>{WatchDirectory: "/a", DownloadRate: ""}\<close>
  and the new \<open>{WatchDirectory: "/b", DownloadRate: "low"}\<close> exactly the two keys are
  staged, and \<open>Validate\<close> gives \<open>NeedRestartWatch | NeedEngineReConfig\<close>.
\<close>

theorem SyncViper_stages_changed_fields:
  "(let changed = filter (\<lambda>i. iface_neq (Value_Field c i) (Value_Field nc i)) [0..<NumField c];
        sets = map (\<lambda>i. viper_Set (Field_Name c i) (Value_Field nc i)) changed;
        logs = map (\<lambda>i. Println [StringV ''config updated '', StringV (Field_Name c i),
                                  StringV '': '', Value_Field c i, StringV '' -> '', Value_Field nc i])
                   changed
    in SyncViper V c nc =
         (c, sets @ [viper_WriteConfigAs (ConfigFileUsed V)], logs,
          WriteConfigAs V sets (ConfigFileUsed V)) \<and>
       length logs = length sets \<and>
       (\<forall>p. viper_WriteConfigAs p \<notin> set sets) \<and>
       (\<forall>i v. i < NumField c \<longrightarrow>
          (viper_Set (Field_Name c i) v \<in> set sets) =
          (iface_neq (Value_Field c i) (Value_Field nc i) \<and> v = Value_Field nc i))) \<and>
   NumField c = 20 \<and>
   SyncViper V (zeroConfig\<lparr>WatchDirectory := ''/a'', DownloadRate := []\<rparr>)
     (zeroConfig\<lparr>WatchDirectory := ''/b'', DownloadRate := ''low''\<rparr>) =
     (zeroConfig\<lparr>WatchDirectory := ''/a'', DownloadRate := []\<rparr>,
      [viper_Set ''WatchDirectory'' (StringV ''/b''),
       viper_Set ''DownloadRate'' (StringV ''low''),
       viper_WriteConfigAs (ConfigFileUsed V)],
      [Println [StringV ''config updated '', StringV ''WatchDirectory'', StringV '': '',
                StringV ''/a'', StringV '' -> '', StringV ''/b''],
       Println [StringV ''config updated '', StringV ''DownloadRate'', StringV '': '',
                StringV [], StringV '' -> '', StringV ''low'']],
      WriteConfigAs V
        [viper_Set ''WatchDirectory'' (StringV ''/b''),
         viper_Set ''DownloadRate'' (StringV ''low'')]
        (ConfigFileUsed V)) \<and>
   Validate (zeroConfig\<lparr>WatchDirectory := ''/a'', DownloadRate := []\<rparr>)
     (zeroConfig\<lparr>WatchDirectory := ''/b'', DownloadRate := ''low''\<rparr>) =
     Some (NeedRestartWatch OR NeedEngineReConfig)"
proof -
  let ?d = "\<lambda>i. iface_neq (Value_Field c i) (Value_Field nc i)"
  let ?changed = "filter ?d [0..<NumField c]"
  let ?sets = "map (\<lambda>i. viper_Set (Field_Name c i) (Value_Field nc i)) ?changed"
  have mem: "(viper_Set (Field_Name c i) v \<in> set ?sets) = (?d i \<and> v = Value_Field nc i)"
    if "i < NumField c" for i v
  proof
    assume "viper_Set (Field_Name c i) v \<in> set ?sets"
    then obtain j where j: "j < NumField c" "?d j" "Field_Name c j = Field_Name c i"
      "Value_Field nc j = v"
      by auto
    from Field_Name_inj [OF j(1) that j(3)] j show "?d i \<and> v = Value_Field nc i"
      by simp
  next
    assume "?d i \<and> v = Value_Field nc i"
    with that show "viper_Set (Field_Name c i) v \<in> set ?sets"
      by auto
  qed
  have general: "let changed = ?changed;
        sets = map (\<lambda>i. viper_Set (Field_Name c i) (Value_Field nc i)) changed;
        logs = map (\<lambda>i. Println [StringV ''config updated '', StringV (Field_Name c i),
                                  StringV '': '', Value_Field c i, StringV '' -> '', Value_Field nc i])
                   changed
    in SyncViper V c nc =
         (c, sets @ [viper_WriteConfigAs (ConfigFileUsed V)], logs,
          WriteConfigAs V sets (ConfigFileUsed V)) \<and>
       length logs = length sets \<and>
       (\<forall>p. viper_WriteConfigAs p \<notin> set sets) \<and>
       (\<forall>i v. i < NumField c \<longrightarrow>
          (viper_Set (Field_Name c i) v \<in> set sets) =
          (iface_neq (Value_Field c i) (Value_Field nc i) \<and> v = Value_Field nc i))"
    unfolding Let_def
  proof (intro conjI allI impI)
    show "SyncViper V c nc =
         (c, ?sets @ [viper_WriteConfigAs (ConfigFileUsed V)],
          map (\<lambda>i. Println [StringV ''config updated '', StringV (Field_Name c i),
                             StringV '': '', Value_Field c i, StringV '' -> '', Value_Field nc i])
              ?changed,
          WriteConfigAs V ?sets (ConfigFileUsed V))"
      by (rule SyncViper_eq)
    show "length (map (\<lambda>i. Println [StringV ''config updated '', StringV (Field_Name c i),
                             StringV '': '', Value_Field c i, StringV '' -> '', Value_Field nc i])
              ?changed) = length ?sets"
      by simp
    show "viper_WriteConfigAs p \<notin> set ?sets" for p
      by auto
    show "(viper_Set (Field_Name c i) v \<in> set ?sets) = (?d i \<and> v = Value_Field nc i)"
      if "i < NumField c" for i v
      using that by (rule mem)
  qed
  let ?old = "zeroConfig\<lparr>WatchDirectory := ''/a'', DownloadRate := []\<rparr>"
  let ?new = "zeroConfig\<lparr>WatchDirectory := ''/b'', DownloadRate := ''low''\<rparr>"
  have ex: "SyncViper V ?old ?new =
     (?old,
      [viper_Set ''WatchDirectory'' (StringV ''/b''),
       viper_Set ''DownloadRate'' (StringV ''low''),
       viper_WriteConfigAs (ConfigFileUsed V)],
      [Println [StringV ''config updated '', StringV ''WatchDirectory'', StringV '': '',
                StringV ''/a'', StringV '' -> '', StringV ''/b''],
       Println [StringV ''config updated '', StringV ''DownloadRate'', StringV '': '',
                StringV [], StringV '' -> '', StringV ''low'']],
      WriteConfigAs V
        [viper_Set ''WatchDirectory'' (StringV ''/b''),
         viper_Set ''DownloadRate'' (StringV ''low'')]
        (ConfigFileUsed V))"
    by code_simp
  have val: "Validate ?old ?new = Some (NeedRestartWatch OR NeedEngineReConfig)"
    by code_simp
  from general NumField_20 [of c] ex val show ?thesis
    by (intro conjI)
qed


theorem SyncViper_stages_changed_fields_witness:
  "(11::nat) < NumField defaultConfig \<and>
   Field_Name defaultConfig 11 = ''IncomingPort'' \<and>
   viper_Set ''IncomingPort'' (IntV 6881) \<in>
     set (fst (snd (SyncViper
       \<lparr>ConfigFileUsed = ''cloud-torrent.yaml'', WriteConfigAs = (\<lambda>calls path. None)\<rparr>
       defaultConfig (defaultConfig\<lparr>IncomingPort := 6881, RssURL := ''http://feed''\<rparr>)))) \<and>
   SyncViper
     \<lparr>ConfigFileUsed = ''cloud-torrent.yaml'', WriteConfigAs = (\<lambda>calls path. None)\<rparr>
     defaultConfig (defaultConfig\<lparr>IncomingPort := 6881, RssURL := ''http://feed''\<rparr>)
   = (defaultConfig,
      [viper_Set ''IncomingPort'' (IntV 6881), viper_Set ''RssURL'' (StringV ''http://feed''),
       viper_WriteConfigAs ''cloud-torrent.yaml''],
      [Println [StringV ''config updated '', StringV ''IncomingPort'', StringV '': '',
                IntV 50007, StringV '' -> '', IntV 6881],
       Println [StringV ''config updated '', StringV ''RssURL'', StringV '': '',
                StringV [], StringV '' -> '', StringV ''http://feed'']],
      None)"
proof -
  let ?V = "\<lparr>ConfigFileUsed = ''cloud-torrent.yaml'', WriteConfigAs = (\<lambda>calls path. None)\<rparr>"
  let ?nc = "defaultConfig\<lparr>IncomingPort := 6881, RssURL := ''http://feed''\<rparr>"
  note t = SyncViper_stages_changed_fields [of defaultConfig ?nc ?V]
  from t have n: "NumField defaultConfig = 20"
    by (rule conjunct1 [OF conjunct2])
  from t [THEN conjunct1, unfolded Let_def]
  have eq: "SyncViper ?V defaultConfig ?nc =
      (defaultConfig,
       map (\<lambda>i. viper_Set (Field_Name defaultConfig i) (Value_Field ?nc i))
         (filter (\<lambda>i. iface_neq (Value_Field defaultConfig i) (Value_Field ?nc i))
           [0..<NumField defaultConfig])
        @ [viper_WriteConfigAs (ConfigFileUsed ?V)],
       map (\<lambda>i. Println [StringV ''config updated '', StringV (Field_Name defaultConfig i),
                          StringV '': '', Value_Field defaultConfig i, StringV '' -> '', Value_Field ?nc i])
         (filter (\<lambda>i. iface_neq (Value_Field defaultConfig i) (Value_Field ?nc i))
           [0..<NumField defaultConfig]),
       WriteConfigAs ?V
         (map (\<lambda>i. viper_Set (Field_Name defaultConfig i) (Value_Field ?nc i))
           (filter (\<lambda>i. iface_neq (Value_Field defaultConfig i) (Value_Field ?nc i))
             [0..<NumField defaultConfig]))
         (ConfigFileUsed ?V))"
    and mem: "\<forall>i v. i < NumField defaultConfig \<longrightarrow>
        (viper_Set (Field_Name defaultConfig i) v \<in>
           set (map (\<lambda>i. viper_Set (Field_Name defaultConfig i) (Value_Field ?nc i))
             (filter (\<lambda>i. iface_neq (Value_Field defaultConfig i) (Value_Field ?nc i))
               [0..<NumField defaultConfig]))) =
        (iface_neq (Value_Field defaultConfig i) (Value_Field ?nc i) \<and> v = Value_Field ?nc i)"
    by blast+
  have name: "Field_Name defaultConfig 11 = ''IncomingPort''"
    by code_simp
  have differs: "iface_neq (Value_Field defaultConfig 11) (Value_Field ?nc 11) \<and> IntV 6881 = Value_Field ?nc 11"
    by code_simp
  have lt: "(11::nat) < NumField defaultConfig"
    by (simp add: n)
  from mem [rule_format, OF lt, of "IntV 6881"] differs name
  have staged: "viper_Set ''IncomingPort'' (IntV 6881) \<in>
      set (map (\<lambda>i. viper_Set (Field_Name defaultConfig i) (Value_Field ?nc i))
        (filter (\<lambda>i. iface_neq (Value_Field defaultConfig i) (Value_Field ?nc i))
          [0..<NumField defaultConfig]))"
    by simp
  then have in_calls: "viper_Set ''IncomingPort'' (IntV 6881) \<in>
      set (fst (snd (SyncViper ?V defaultConfig ?nc)))"
    by (simp only: eq fst_conv snd_conv set_append) simp
  have run: "SyncViper ?V defaultConfig ?nc =
     (defaultConfig,
      [viper_Set ''IncomingPort'' (IntV 6881), viper_Set ''RssURL'' (StringV ''http://feed''),
       viper_WriteConfigAs ''cloud-torrent.yaml''],
      [Println [StringV ''config updated '', StringV ''IncomingPort'', StringV '': '',
                IntV 50007, StringV '' -> '', IntV 6881],
       Println [StringV ''config updated '', StringV ''RssURL'', StringV '': '',
                StringV [], StringV '' -> '', StringV ''http://feed'']],
      None)"
    by code_simp
  from lt name in_calls run show ?thesis
    by (intro conjI)
qed

end
